theory Spec2Isabelle
  imports Complex_Main "HOL-Library.Log_Nat"
begin

section \<open>Numbers\<close>

text \<open>
  The program computes with JavaScript numbers, the doubles of IEEE 754. A finite number is
  modelled by its exact value, a rational (\<^typ>\<open>rat\<close>); the samples of an hourly series
  are finite numbers. The result of an arithmetic operation is the exact result rounded
  to the nearest double, a tie going to the even significand, and a result beyond the
  range of the doubles is an infinity: such results are values of the type \<open>number\<close>.
  The sign of a zero is not modelled (no divisor of the program can be a negative zero).
  Instants are integers, the milliseconds that \<^verbatim>\<open>getTime()\<close> returns for a valid date.
\<close>

datatype number = NaN | NegInfinity | Num rat | PosInfinity

subsection \<open>Rounding to a double\<close>

text \<open>The integer nearest to \<open>y\<close>, the even one of the two when \<open>y\<close> lies half way.\<close>

definition rne :: "rat \<Rightarrow> int" where
  "rne y =
     (let f = \<lfloor>y\<rfloor>; d = y - of_int f
      in if d < 1 / 2 then f else if 1 / 2 < d then f + 1 else if even f then f else f + 1)"

text \<open>
  A double is an integer multiple of \<open>2\<^sup>-\<^sup>1\<^sup>0\<^sup>7\<^sup>4\<close>. For \<open>z\<close>, a magnitude in units of
  \<open>2\<^sup>-\<^sup>1\<^sup>0\<^sup>7\<^sup>4\<close>, \<open>shift z\<close> is the number of the low bits that a significand of 53 bits
  cannot hold: none below \<open>2\<^sup>5\<^sup>3\<close> (which covers the subnormal doubles), and one more
  with every further binary digit of \<open>z\<close>.
\<close>

definition shift :: "rat \<Rightarrow> nat" where
  "shift z = nat (bitlen \<lfloor>z\<rfloor> - 53)"

definition round_magnitude :: "rat \<Rightarrow> rat" where
  "round_magnitude x =
     (let z = x * 2 ^ 1074;
          s = shift z
      in of_int (rne (z / 2 ^ s)) * 2 ^ s / 2 ^ 1074)"

text \<open>The double nearest to \<open>x\<close>, were the exponents of the doubles not bounded above.\<close>

definition to_double :: "rat \<Rightarrow> rat" where
  "to_double x = (if x < 0 then - round_magnitude (- x) else round_magnitude x)"

text \<open>The number for the exact result \<open>x\<close> of an operation: overflow gives an infinity.\<close>

definition number_of :: "rat \<Rightarrow> number" where
  "number_of x =
     (let d = to_double x
      in if 2 ^ 1024 \<le> d then PosInfinity
         else if d \<le> - (2 ^ 1024) then NegInfinity
         else Num d)"

subsection \<open>Arithmetic\<close>

text \<open>
  \<^verbatim>\<open>a + b\<close>, \<^verbatim>\<open>a * b\<close> and \<^verbatim>\<open>a / b\<close> for a number \<open>a\<close> and a finite \<open>b\<close>: in the
  program the right operand of every operation is finite (a sample, a length or a
  constant).
\<close>

fun num_add :: "number \<Rightarrow> rat \<Rightarrow> number" where
  "num_add NaN b = NaN"
| "num_add NegInfinity b = NegInfinity"
| "num_add PosInfinity b = PosInfinity"
| "num_add (Num a) b = number_of (a + b)"

fun num_mul :: "number \<Rightarrow> rat \<Rightarrow> number" where
  "num_mul NaN b = NaN"
| "num_mul NegInfinity b = (if b = 0 then NaN else if 0 < b then NegInfinity else PosInfinity)"
| "num_mul PosInfinity b = (if b = 0 then NaN else if 0 < b then PosInfinity else NegInfinity)"
| "num_mul (Num a) b = number_of (a * b)"

fun num_div :: "number \<Rightarrow> rat \<Rightarrow> number" where
  "num_div NaN b = NaN"
| "num_div NegInfinity b = (if b < 0 then PosInfinity else NegInfinity)"
| "num_div PosInfinity b = (if b < 0 then NegInfinity else PosInfinity)"
| "num_div (Num a) b =
     (if b = 0 then (if a = 0 then NaN else if 0 < a then PosInfinity else NegInfinity)
      else number_of (a / b))"

text \<open>\<^verbatim>\<open>v > c\<close> and \<^verbatim>\<open>v < c\<close> for a finite \<open>c\<close>; a comparison with \<^verbatim>\<open>NaN\<close> is false.\<close>

fun gt_number :: "number \<Rightarrow> rat \<Rightarrow> bool" where
  "gt_number NaN c = False"
| "gt_number NegInfinity c = False"
| "gt_number (Num a) c = (c < a)"
| "gt_number PosInfinity c = True"

fun lt_number :: "number \<Rightarrow> rat \<Rightarrow> bool" where
  "lt_number NaN c = False"
| "lt_number NegInfinity c = True"
| "lt_number (Num a) c = (a < c)"
| "lt_number PosInfinity c = False"

text \<open>
  \<^verbatim>\<open>Math.round(v)\<close>: the integer nearest to \<open>v\<close>, the larger one when two are equally
  near; the function is exact. \<^verbatim>\<open>Math.min(100, v)\<close>. \<^verbatim>\<open>Math.max(...xs)\<close> and
  \<^verbatim>\<open>Math.min(...xs)\<close> of finite numbers, which are infinities for no argument.
\<close>

fun Math_round :: "number \<Rightarrow> number" where
  "Math_round (Num a) = Num (of_int \<lfloor>a + 1 / 2\<rfloor>)"
| "Math_round v = v"

fun Math_min_100 :: "number \<Rightarrow> number" where
  "Math_min_100 NaN = NaN"
| "Math_min_100 NegInfinity = NegInfinity"
| "Math_min_100 (Num a) = Num (min 100 a)"
| "Math_min_100 PosInfinity = Num 100"

fun Math_max :: "rat list \<Rightarrow> number" where
  "Math_max [] = NegInfinity"
| "Math_max (x # xs) = Num (fold max xs x)"

fun Math_min :: "rat list \<Rightarrow> number" where
  "Math_min [] = PosInfinity"
| "Math_min (x # xs) = Num (fold min xs x)"

text \<open>\<^verbatim>\<open>Math.round(v * 10) / 10\<close>, the rounding of the evaluators' statistics.\<close>

definition round1 :: "number \<Rightarrow> number" where
  "round1 v = num_div (Math_round (num_mul v 10)) 10"

text \<open>
  \<^verbatim>\<open>xs.reduce((a, b) => a + b, 0) / xs.length\<close>: the sum from the left, every addition
  rounded, divided by the length; \<^verbatim>\<open>0 / 0\<close> for the empty array.
\<close>

definition mean :: "rat list \<Rightarrow> number" where
  "mean xs = num_div (foldl num_add (Num 0) xs) (of_nat (length xs))"

section \<open>Metric evaluators\<close>

subsection \<open>calculateRainProbability\<close>

text \<open>
  \<^verbatim>\<open>
  function calculateRainProbability(precipitation, humidity, hours) {
    const rainHours = precipitation.filter(p => p > 0.1).length;
    const baseProbability = (rainHours / hours) * 100;
    let humidityBonus = 0;
    if (humidity && humidity.length > 0) {
      const avgHumidity = humidity.reduce((a, b) => a + b, 0) / humidity.length;
      humidityBonus = avgHumidity > 80 ? 10 : (avgHumidity > 60 ? 5 : 0);
    }
    return Math.min(100, Math.round(baseProbability + humidityBonus));
  }
  \<close>
  The humidity argument is \<open>None\<close> for \<^verbatim>\<open>null\<close>. The literal \<^verbatim>\<open>0.1\<close> is the double
  nearest to a tenth. With \<open>hours = 0\<close> the quotient is \<^verbatim>\<open>NaN\<close> (no rain hour) or
  \<^verbatim>\<open>Infinity\<close> (some rain hour), and \<^verbatim>\<open>Math.min(100, Infinity)\<close> is 100.
\<close>

definition humidityBonus :: "rat list option \<Rightarrow> rat" where
  "humidityBonus humidity =
     (case humidity of
        None \<Rightarrow> 0
      | Some hs \<Rightarrow>
          if length hs > 0
          then (let avgHumidity = mean hs
                in if gt_number avgHumidity 80 then 10
                   else if gt_number avgHumidity 60 then 5 else 0)
          else 0)"

definition calculateRainProbability :: "rat list \<Rightarrow> rat list option \<Rightarrow> int \<Rightarrow> number" where
  "calculateRainProbability precipitation humidity hours =
     (let rainHours = length (filter (\<lambda>p. p > to_double (1 / 10)) precipitation);
          baseProbability = num_mul (num_div (Num (of_nat rainHours)) (of_int hours)) 100
      in Math_min_100 (Math_round (num_add baseProbability (humidityBonus humidity))))"

subsection \<open>evaluateTemperature\<close>

datatype temp_status = muy_baja | baja | normal | alta | muy_alta

record temperatureData =
  t_average :: number
  t_max :: number
  t_min :: number
  t_status :: temp_status

text \<open>
  \<^verbatim>\<open>
  function evaluateTemperature(temperatures) {
    const avgTemp = temperatures.reduce((a, b) => a + b, 0) / temperatures.length;
    const maxTemp = Math.max(...temperatures);
    const minTemp = Math.min(...temperatures);
    let tempStatus = 'normal';
    if (maxTemp > 35) tempStatus = 'muy_alta';
    else if (minTemp < 0) tempStatus = 'muy_baja';
    else if (maxTemp > 30) tempStatus = 'alta';
    else if (minTemp < 5) tempStatus = 'baja';
    return { average: Math.round(avgTemp * 10) / 10, max: Math.round(maxTemp * 10) / 10,
             min: Math.round(minTemp * 10) / 10, status: tempStatus };
  }
  \<close>
\<close>

definition evaluateTemperature :: "rat list \<Rightarrow> temperatureData" where
  "evaluateTemperature temperatures =
     (let avgTemp = mean temperatures;
          maxTemp = Math_max temperatures;
          minTemp = Math_min temperatures;
          tempStatus =
            (if gt_number maxTemp 35 then muy_alta
             else if lt_number minTemp 0 then muy_baja
             else if gt_number maxTemp 30 then alta
             else if lt_number minTemp 5 then baja
             else normal)
      in \<lparr>t_average = round1 avgTemp, t_max = round1 maxTemp,
          t_min = round1 minTemp, t_status = tempStatus\<rparr>)"

subsection \<open>evaluateWind\<close>

datatype wind_status = Poco | Comun | Mucho

record windData =
  w_average :: number
  w_max :: number
  w_status :: wind_status

text \<open>
  \<^verbatim>\<open>
  function evaluateWind(windSpeeds) {
    const avgWind = windSpeeds.reduce((a, b) => a + b, 0) / windSpeeds.length;
    const maxWind = Math.max(...windSpeeds);
    let windStatus = 'Poco';
    if (maxWind > 20) windStatus = 'Mucho';
    else if (avgWind > 10) windStatus = 'Comun';
    return { average: Math.round(avgWind * 10) / 10, max: Math.round(maxWind * 10) / 10,
             status: windStatus };
  }
  \<close>
  The constructor \<open>Comun\<close> stands for the status string of the source, which has an
  accented letter.
\<close>

definition evaluateWind :: "rat list \<Rightarrow> windData" where
  "evaluateWind windSpeeds =
     (let avgWind = mean windSpeeds;
          maxWind = Math_max windSpeeds;
          windStatus =
            (if gt_number maxWind 20 then Mucho
             else if gt_number avgWind 10 then Comun
             else Poco)
      in \<lparr>w_average = round1 avgWind, w_max = round1 maxWind, w_status = windStatus\<rparr>)"

section \<open>Arrays and strings of the runtime\<close>

text \<open>
  \<^verbatim>\<open>xs[i]\<close>: \<open>None\<close> is \<^verbatim>\<open>undefined\<close>, the value of an index outside
  the array.
\<close>

definition index :: "'a list \<Rightarrow> int \<Rightarrow> 'a option" where
  "index xs i = (if 0 \<le> i \<and> i < int (length xs) then Some (xs ! nat i) else None)"

text \<open>
  \<^verbatim>\<open>xs.slice(start, end)\<close>: a negative bound counts from the end of the array, and
  both bounds are clipped to it.
\<close>

definition slice :: "'a list \<Rightarrow> int \<Rightarrow> int \<Rightarrow> 'a list" where
  "slice xs start end =
     (let len = int (length xs);
          k = (if start < 0 then max (len + start) 0 else min start len);
          final = (if end < 0 then max (len + end) 0 else min end len)
      in take (nat (final - k)) (drop (nat k) xs))"

text \<open>\<^verbatim>\<open>xs.findIndex(p)\<close>: the first index whose element satisfies \<open>p\<close>, or -1.\<close>

fun findIndex :: "('a \<Rightarrow> bool) \<Rightarrow> 'a list \<Rightarrow> int" where
  "findIndex p [] = - 1"
| "findIndex p (x # xs) =
     (if p x then 0 else (let r = findIndex p xs in if r = - 1 then - 1 else r + 1))"

text \<open>
  Strings are lists of 8-bit characters. \<^verbatim>\<open>parseInt\<close> and \<^verbatim>\<open>parseFloat\<close> skip
  leading white space (here the white space of ASCII), read an optional sign and the
  longest prefix of the rest that is a numeral; \<open>None\<close> and \<open>NaN\<close> stand for the
  result \<^verbatim>\<open>NaN\<close> of a string with no such prefix.
\<close>

definition isWhiteSpace :: "char \<Rightarrow> bool" where
  "isWhiteSpace c \<longleftrightarrow> of_char c \<in> {9::nat, 10, 11, 12, 13, 32}"

definition isDigit :: "char \<Rightarrow> bool" where
  "isDigit c \<longleftrightarrow> 48 \<le> (of_char c :: nat) \<and> (of_char c :: nat) \<le> 57"

definition digits_value :: "string \<Rightarrow> nat" where
  "digits_value ds = foldl (\<lambda>a c. 10 * a + (of_char c - 48)) 0 ds"

text \<open>The sign of a numeral and the rest of the string after it.\<close>

fun read_sign :: "string \<Rightarrow> int \<times> string" where
  "read_sign [] = (1, [])"
| "read_sign (c # cs) =
     (if c = CHR ''-'' then (- 1, cs) else if c = CHR ''+'' then (1, cs) else (1, c # cs))"

text \<open>\<^verbatim>\<open>parseInt(s, 10)\<close>.\<close>

definition parseInt :: "string \<Rightarrow> int option" where
  "parseInt s =
     (let (sign, rest) = read_sign (dropWhile isWhiteSpace s);
          ds = takeWhile isDigit rest
      in if ds = [] then None else Some (sign * int (digits_value ds)))"

text \<open>
  \<^verbatim>\<open>parseFloat(s)\<close>: after the sign, \<^verbatim>\<open>Infinity\<close> or decimal digits with an optional
  fraction and an optional exponent; a numeral needs a digit before or after its point,
  and an exponent needs a digit. The result is the number for the exact value of the
  numeral: the nearest double, zero for a value too small and an infinity for one too
  large.
\<close>

definition exponent_part :: "string \<Rightarrow> int" where
  "exponent_part r =
     (case r of
        [] \<Rightarrow> 0
      | c # cs \<Rightarrow>
          if c = CHR ''e'' \<or> c = CHR ''E''
          then (let (esign, r') = read_sign cs;
                    eds = takeWhile isDigit r'
                in if eds = [] then 0 else esign * int (digits_value eds))
          else 0)"

definition scale10 :: "rat \<Rightarrow> int \<Rightarrow> rat" where
  "scale10 x e = (if 0 \<le> e then x * 10 ^ nat e else x / 10 ^ nat (- e))"

definition parseFloat :: "string \<Rightarrow> number" where
  "parseFloat s =
     (let (sign, rest) = read_sign (dropWhile isWhiteSpace s)
      in if take 8 rest = ''Infinity''
         then (if sign < 0 then NegInfinity else PosInfinity)
         else (let ip = takeWhile isDigit rest;
                   r1 = dropWhile isDigit rest;
                   has_point = (r1 \<noteq> [] \<and> hd r1 = CHR ''.'');
                   fp = (if has_point then takeWhile isDigit (tl r1) else []);
                   r2 = (if has_point then dropWhile isDigit (tl r1) else r1)
               in if ip = [] \<and> fp = [] then NaN
                  else number_of (scale10
                         (of_int sign * of_nat (digits_value (ip @ fp)))
                         (exponent_part r2 - int (length fp)))))"

section \<open>The handler of /api/willitrain\<close>

subsection \<open>Query parameters\<close>

text \<open>
  A query parameter is \<open>None\<close> when the request does not carry it. A value is falsy,
  for \<^verbatim>\<open>!lat\<close> and \<^verbatim>\<open>if (date)\<close>, when it is missing or the empty string.
\<close>

record query =
  q_lat :: "string option"
  q_lon :: "string option"
  q_date :: "string option"
  q_hours :: "string option"
  q_threshold :: "string option"

definition truthy :: "string option \<Rightarrow> bool" where
  "truthy v = (case v of None \<Rightarrow> False | Some s \<Rightarrow> s \<noteq> [])"

text \<open>
  \<^verbatim>\<open>
  const { lat, lon, date, hours = '12', threshold = '0.1' } = req.query;
  const hoursNum = Math.max(1, Math.min(168, parseInt(hours, 10) || 12));
  const threshNum = parseFloat(threshold) || 0.1;
  \<close>
  The default of the destructuring stands for a missing parameter only; \<^verbatim>\<open>||\<close> takes
  its right operand when the left one is \<^verbatim>\<open>NaN\<close> or zero.
\<close>

definition hoursNum :: "string option \<Rightarrow> int" where
  "hoursNum hours =
     (let parsed = parseInt (case hours of None \<Rightarrow> ''12'' | Some s \<Rightarrow> s)
      in max 1 (min 168
           (case parsed of None \<Rightarrow> 12 | Some n \<Rightarrow> if n = 0 then 12 else n)))"

definition threshNum :: "string option \<Rightarrow> number" where
  "threshNum threshold =
     (case parseFloat (case threshold of None \<Rightarrow> ''0.1'' | Some s \<Rightarrow> s) of
        NaN \<Rightarrow> Num (to_double (1 / 10))
      | Num x \<Rightarrow> if x = 0 then Num (to_double (1 / 10)) else Num x
      | NegInfinity \<Rightarrow> NegInfinity
      | PosInfinity \<Rightarrow> PosInfinity)"

text \<open>\<^verbatim>\<open>x >= threshNum\<close> for a finite \<open>x\<close>.\<close>

fun ge_number :: "rat \<Rightarrow> number \<Rightarrow> bool" where
  "ge_number x NaN = False"
| "ge_number x NegInfinity = True"
| "ge_number x (Num y) = (x \<ge> y)"
| "ge_number x PosInfinity = False"

subsection \<open>The index nearest to the requested instant\<close>

text \<open>
  \<^verbatim>\<open>
  let idx = times.findIndex(t => t.getTime() === targetDate.getTime());
  if (idx === -1) {
    let minDiff = Infinity;
    idx = -1;
    for (let i = 0; i < times.length; i++) {
      const diff = Math.abs(times[i].getTime() - targetDate.getTime());
      if (diff < minDiff) { minDiff = diff; idx = i; }
    }
  }
  \<close>
  The loop runs over the rest of the array from index \<open>i\<close>; \<open>minDiff\<close> is \<open>None\<close>
  while it is \<^verbatim>\<open>Infinity\<close>.
\<close>

fun closest_loop :: "int list \<Rightarrow> int \<Rightarrow> int \<Rightarrow> int option \<Rightarrow> int \<Rightarrow> int" where
  "closest_loop [] target i minDiff idx = idx"
| "closest_loop (t # ts) target i minDiff idx =
     (let diff = \<bar>t - target\<bar>
      in if (case minDiff of None \<Rightarrow> True | Some m \<Rightarrow> diff < m)
         then closest_loop ts target (i + 1) (Some diff) i
         else closest_loop ts target (i + 1) minDiff idx)"

definition target_idx :: "int list \<Rightarrow> int \<Rightarrow> int" where
  "target_idx tms target =
     (let idx = findIndex (\<lambda>t. t = target) tms
      in if idx = - 1 then closest_loop tms target 0 None (- 1) else idx)"

subsection \<open>The answer for a requested instant\<close>

record point =
  p_time :: int
  p_precipitation :: "rat option"
  p_temperature :: "rat option"
  p_humidity :: "rat option"
  p_windSpeed :: "rat option"
  p_windDirection :: "rat option"

record specific_date =
  sd_requestedDate :: int
  sd_willRain :: bool
  sd_rainProbability :: number
  sd_precipitationMm :: rat
  sd_temperature :: rat
  sd_temperatureData :: temperatureData
  sd_windData :: windData
  sd_thresholdMm :: number
  sd_contextHours :: "point list"

text \<open>
  \<^verbatim>\<open>
  const window = 6;
  const start = Math.max(0, idx - window);
  const end = Math.min(times.length, idx + window + 1);
  \<close>
\<close>

definition context_start :: "int \<Rightarrow> int" where
  "context_start idx = max 0 (idx - 6)"

definition context_end :: "'a list \<Rightarrow> int \<Rightarrow> int" where
  "context_end tms idx = min (int (length tms)) (idx + 6 + 1)"

text \<open>
  The branch \<^verbatim>\<open>if (targetDate) { ... }\<close> after the search for \<open>idx\<close>: the sample at
  \<open>idx\<close> (\<^verbatim>\<open>precs[idx] ?? 0\<close>), the evaluators on the context window and the points
  of the window. An optional series is \<open>None\<close> when the provider did not send it; a
  field of a point is \<open>None\<close> for \<^verbatim>\<open>null\<close> and for \<^verbatim>\<open>undefined\<close>. The indices of
  the loop over the points lie inside \<open>times\<close>.
\<close>

definition specific_date_reply ::
  "int \<Rightarrow> number \<Rightarrow> int list \<Rightarrow> rat list \<Rightarrow> rat list \<Rightarrow> rat list option \<Rightarrow> rat list \<Rightarrow>
   rat list option \<Rightarrow> int \<Rightarrow> specific_date" where
  "specific_date_reply targetDate thresh tms precs temps humidity windSpeed windDirection idx =
     (let precip = (case index precs idx of None \<Rightarrow> 0 | Some v \<Rightarrow> v);
          temp = (case index temps idx of None \<Rightarrow> 0 | Some v \<Rightarrow> v);
          willRain = ge_number precip thresh;
          start = context_start idx;
          end = context_end tms idx;
          contextPrecs = slice precs start end;
          contextTemps = slice temps start end;
          contextHumidity = map_option (\<lambda>h. slice h start end) humidity;
          contextWindSpeed = slice windSpeed start end;
          points =
            map (\<lambda>i. \<lparr>p_time = tms ! nat i,
                       p_precipitation = index precs i,
                       p_temperature = index temps i,
                       p_humidity = (case humidity of None \<Rightarrow> None | Some h \<Rightarrow> index h i),
                       p_windSpeed = index windSpeed i,
                       p_windDirection =
                         (case windDirection of None \<Rightarrow> None | Some d \<Rightarrow> index d i)\<rparr>)
              [start..end - 1]
      in \<lparr>sd_requestedDate = targetDate,
          sd_willRain = willRain,
          sd_rainProbability = calculateRainProbability contextPrecs contextHumidity (end - start),
          sd_precipitationMm = precip,
          sd_temperature = temp,
          sd_temperatureData = evaluateTemperature contextTemps,
          sd_windData = evaluateWind contextWindSpeed,
          sd_thresholdMm = thresh,
          sd_contextHours = points\<rparr>)"

subsection \<open>The answer for the next hours\<close>

record next_hours =
  nh_willRain :: bool
  nh_rainProbability :: number
  nh_maxPrecipitationMm :: rat
  nh_temperatureData :: temperatureData
  nh_windData :: windData
  nh_hoursAnalyzed :: nat
  nh_thresholdMm :: number
  nh_points :: "point list"

text \<open>
  \<^verbatim>\<open>
  let startIdx = times.findIndex(t => t >= now);
  if (startIdx === -1) startIdx = times.length - 1;
  \<close>
\<close>

definition startIdx :: "int list \<Rightarrow> int \<Rightarrow> int" where
  "startIdx tms now =
     (let i = findIndex (\<lambda>t. t \<ge> now) tms
      in if i = - 1 then int (length tms) - 1 else i)"

text \<open>
  \<^verbatim>\<open>points.reduce((m, p) => (p.precipitation > m ? p.precipitation : m), 0)\<close>; the
  comparison with \<^verbatim>\<open>undefined\<close> is false.
\<close>

definition maxPrecip :: "rat option list \<Rightarrow> rat" where
  "maxPrecip ps =
     foldl (\<lambda>m p. case p of None \<Rightarrow> m | Some v \<Rightarrow> if v > m then v else m) 0 ps"

text \<open>
  The code after the branch of the requested instant, from \<^verbatim>\<open>const now = new Date()\<close>
  on: the slices from \<open>startIdx\<close>, one point for each instant of \<open>sliceTimes\<close>, and the
  evaluators on the slices, the rain probability with \<open>hoursNum\<close> as its \<open>hours\<close>.
\<close>

definition next_hours_reply ::
  "int \<Rightarrow> int \<Rightarrow> number \<Rightarrow> int list \<Rightarrow> rat list \<Rightarrow> rat list \<Rightarrow> rat list option \<Rightarrow> rat list \<Rightarrow>
   rat list option \<Rightarrow> next_hours" where
  "next_hours_reply now hoursN thresh tms precs temps humidity windSpeed windDirection =
     (let start = startIdx tms now;
          sliceTimes = slice tms start (start + hoursN);
          slicePrecs = slice precs start (start + hoursN);
          sliceTemps = slice temps start (start + hoursN);
          sliceHumidity = map_option (\<lambda>h. slice h start (start + hoursN)) humidity;
          sliceWindSpeed = slice windSpeed start (start + hoursN);
          points =
            map (\<lambda>i. \<lparr>p_time = sliceTimes ! i,
                       p_precipitation = index slicePrecs (int i),
                       p_temperature = index sliceTemps (int i),
                       p_humidity =
                         (case sliceHumidity of None \<Rightarrow> None | Some h \<Rightarrow> index h (int i)),
                       p_windSpeed = index sliceWindSpeed (int i),
                       p_windDirection =
                         (case windDirection of
                            None \<Rightarrow> None
                          | Some d \<Rightarrow> index d (start + int i))\<rparr>)
              [0..<length sliceTimes];
          willRain =
            list_ex (\<lambda>p. case p_precipitation p of None \<Rightarrow> False | Some v \<Rightarrow> ge_number v thresh)
              points
      in \<lparr>nh_willRain = willRain,
          nh_rainProbability = calculateRainProbability slicePrecs sliceHumidity hoursN,
          nh_maxPrecipitationMm = maxPrecip (map p_precipitation points),
          nh_temperatureData = evaluateTemperature sliceTemps,
          nh_windData = evaluateWind sliceWindSpeed,
          nh_hoursAnalyzed = length points,
          nh_thresholdMm = thresh,
          nh_points = points\<rparr>)"

subsection \<open>The earlier handler of server.js\<close>

text \<open>
  The handler of \<^verbatim>\<open>server.js\<close> asks the provider for the precipitation only. Its
  parameters, its search for \<open>idx\<close> and for \<open>startIdx\<close> and its windows are those
  above; its answers carry the rain flag and the points, with no evaluator.
\<close>

record point_server =
  ps_time :: int
  ps_precipitation :: "rat option"

record specific_date_server =
  ss_requestedDate :: int
  ss_willRain :: bool
  ss_precipitationMm :: rat
  ss_thresholdMm :: number
  ss_contextHours :: "point_server list"

definition specific_date_server_reply ::
  "int \<Rightarrow> number \<Rightarrow> int list \<Rightarrow> rat list \<Rightarrow> int \<Rightarrow> specific_date_server" where
  "specific_date_server_reply targetDate thresh tms precs idx =
     (let precip = (case index precs idx of None \<Rightarrow> 0 | Some v \<Rightarrow> v);
          willRain = ge_number precip thresh;
          start = context_start idx;
          end = context_end tms idx;
          points =
            map (\<lambda>i. \<lparr>ps_time = tms ! nat i, ps_precipitation = index precs i\<rparr>)
              [start..end - 1]
      in \<lparr>ss_requestedDate = targetDate,
          ss_willRain = willRain,
          ss_precipitationMm = precip,
          ss_thresholdMm = thresh,
          ss_contextHours = points\<rparr>)"

record next_hours_server =
  ns_willRain :: bool
  ns_maxPrecipitationMm :: rat
  ns_hoursAnalyzed :: nat
  ns_thresholdMm :: number
  ns_points :: "point_server list"

definition next_hours_server_reply ::
  "int \<Rightarrow> int \<Rightarrow> number \<Rightarrow> int list \<Rightarrow> rat list \<Rightarrow> next_hours_server" where
  "next_hours_server_reply now hoursN thresh tms precs =
     (let start = startIdx tms now;
          sliceTimes = slice tms start (start + hoursN);
          slicePrecs = slice precs start (start + hoursN);
          points =
            map (\<lambda>i. \<lparr>ps_time = sliceTimes ! i, ps_precipitation = index slicePrecs (int i)\<rparr>)
              [0..<length sliceTimes];
          willRain =
            list_ex (\<lambda>p. case ps_precipitation p of None \<Rightarrow> False | Some v \<Rightarrow> ge_number v thresh)
              points
      in \<lparr>ns_willRain = willRain,
          ns_maxPrecipitationMm = maxPrecip (map ps_precipitation points),
          ns_hoursAnalyzed = length points,
          ns_thresholdMm = thresh,
          ns_points = points\<rparr>)"

subsection \<open>Request and response\<close>

text \<open>
  The hourly arrays of the provider's answer, after \<^verbatim>\<open>new Date(t)\<close> and
  \<^verbatim>\<open>Number\<close> have been mapped over them; a member is \<open>None\<close> when the answer lacks
  it.
\<close>

record hourly =
  h_time :: "int list option"
  h_precipitation :: "rat list option"
  h_temperature_2m :: "rat list option"
  h_relative_humidity_2m :: "rat list option"
  h_wind_speed_10m :: "rat list option"
  h_wind_direction_10m :: "rat list option"

text \<open>
  What \<^verbatim>\<open>await fetch(url)\<close> and \<^verbatim>\<open>await resp.json()\<close> give: a failure (the
  promise of one of them rejects), or the status of the provider's answer with the
  \<^verbatim>\<open>hourly\<close> member of its body, \<open>None\<close> when the body has none.
\<close>

datatype fetched = Failed | Reply nat "hourly option"

text \<open>
  What the handler takes from its runtime: the parse of a date string (\<open>None\<close> when
  \<^verbatim>\<open>new Date(s).getTime()\<close> is \<^verbatim>\<open>NaN\<close>), the day \<^verbatim>\<open>yyyy-mm-dd\<close> of an instant
  in universal time, the current instant, and the provider behind \<^verbatim>\<open>fetch\<close>, which
  answers the parameters of the URL.
\<close>

record runtime =
  rt_Date :: "string \<Rightarrow> int option"
  rt_utc_day :: "int \<Rightarrow> string"
  rt_now :: int
  rt_fetch :: "(string \<times> string) list \<Rightarrow> fetched"

datatype body =
    Error string
  | SpecificDate specific_date
  | NextHours next_hours
  | SpecificDateServer specific_date_server
  | NextHoursServer next_hours_server

record response =
  status :: nat
  body :: body

definition param :: "string option \<Rightarrow> string" where
  "param v = (case v of None \<Rightarrow> [] | Some s \<Rightarrow> s)"

text \<open>
  The handler returns its response and the requests it sent to the provider, each the
  list of the parameters of its URL. A rejected promise is caught and answered by 500;
  the instants of the provider are valid dates, so that no \<^verbatim>\<open>toISOString()\<close> throws.
  The block \<^verbatim>\<open>if (date) { ... }\<close> either answers 400 (\<open>Inl\<close>) or goes on with
  the target date and the parameters of the URL (\<open>Inr\<close>), to which
  \<^verbatim>\<open>params.set\<close> has added the day of the target.
\<close>

definition willitrain :: "runtime \<Rightarrow> query \<Rightarrow> response \<times> (string \<times> string) list list" where
  "willitrain rt q =
     (let hoursN = hoursNum (q_hours q);
          thresh = threshNum (q_threshold q)
      in if \<not> truthy (q_lat q) \<or> \<not> truthy (q_lon q)
         then (\<lparr>status = 400, body = Error ''lat and lon are required''\<rparr>, [])
         else
           (let params =
                  [(''latitude'', param (q_lat q)), (''longitude'', param (q_lon q)),
                   (''hourly'',
                    ''precipitation,temperature_2m,relative_humidity_2m,wind_speed_10m,wind_direction_10m''),
                   (''timezone'', ''auto'')]
            in case (if truthy (q_date q)
                     then (case rt_Date rt (param (q_date q)) of
                             None \<Rightarrow> Inl \<lparr>status = 400, body = Error ''invalid date''\<rparr>
                           | Some d \<Rightarrow>
                               Inr (Some d,
                                    params @ [(''start_date'', rt_utc_day rt d),
                                              (''end_date'', rt_utc_day rt d)]))
                     else Inr (None, params)) of
                 Inl r \<Rightarrow> (r, [])
               | Inr (targetDate, params') \<Rightarrow>
                   (case rt_fetch rt params' of
                      Failed \<Rightarrow> (\<lparr>status = 500, body = Error ''internal error''\<rparr>, [params'])
                    | Reply st data \<Rightarrow>
                        if \<not> (200 \<le> st \<and> st \<le> 299)
                        then (\<lparr>status = st, body = Error ''weather provider error''\<rparr>, [params'])
                        else
                          (case data of
                             None \<Rightarrow>
                               (\<lparr>status = 502, body = Error ''unexpected weather data format''\<rparr>,
                                [params'])
                           | Some h \<Rightarrow>
                               (case (h_time h, h_precipitation h, h_temperature_2m h,
                                      h_wind_speed_10m h) of
                                  (Some tms, Some precs, Some temps, Some windSpeed) \<Rightarrow>
                                    (case targetDate of
                                       Some t \<Rightarrow>
                                         (\<lparr>status = 200,
                                           body = SpecificDate
                                             (specific_date_reply t thresh tms precs temps
                                                (h_relative_humidity_2m h) windSpeed
                                                (h_wind_direction_10m h) (target_idx tms t))\<rparr>,
                                          [params'])
                                     | None \<Rightarrow>
                                         (\<lparr>status = 200,
                                           body = NextHours
                                             (next_hours_reply (rt_now rt) hoursN thresh tms precs
                                                temps (h_relative_humidity_2m h) windSpeed
                                                (h_wind_direction_10m h))\<rparr>,
                                          [params']))
                                | _ \<Rightarrow>
                                    (\<lparr>status = 502,
                                      body = Error ''unexpected weather data format''\<rparr>,
                                     [params']))))))"

definition willitrain_server ::
  "runtime \<Rightarrow> query \<Rightarrow> response \<times> (string \<times> string) list list" where
  "willitrain_server rt q =
     (let hoursN = hoursNum (q_hours q);
          thresh = threshNum (q_threshold q)
      in if \<not> truthy (q_lat q) \<or> \<not> truthy (q_lon q)
         then (\<lparr>status = 400, body = Error ''lat and lon are required''\<rparr>, [])
         else
           (let params =
                  [(''latitude'', param (q_lat q)), (''longitude'', param (q_lon q)),
                   (''hourly'', ''precipitation''), (''timezone'', ''auto'')]
            in case (if truthy (q_date q)
                     then (case rt_Date rt (param (q_date q)) of
                             None \<Rightarrow> Inl \<lparr>status = 400, body = Error ''invalid date''\<rparr>
                           | Some d \<Rightarrow>
                               Inr (Some d,
                                    params @ [(''start_date'', rt_utc_day rt d),
                                              (''end_date'', rt_utc_day rt d)]))
                     else Inr (None, params)) of
                 Inl r \<Rightarrow> (r, [])
               | Inr (targetDate, params') \<Rightarrow>
                   (case rt_fetch rt params' of
                      Failed \<Rightarrow> (\<lparr>status = 500, body = Error ''internal error''\<rparr>, [params'])
                    | Reply st data \<Rightarrow>
                        if \<not> (200 \<le> st \<and> st \<le> 299)
                        then (\<lparr>status = st, body = Error ''weather provider error''\<rparr>, [params'])
                        else
                          (case data of
                             None \<Rightarrow>
                               (\<lparr>status = 502, body = Error ''unexpected weather data format''\<rparr>,
                                [params'])
                           | Some h \<Rightarrow>
                               (case (h_time h, h_precipitation h) of
                                  (Some tms, Some precs) \<Rightarrow>
                                    (case targetDate of
                                       Some t \<Rightarrow>
                                         (\<lparr>status = 200,
                                           body = SpecificDateServer
                                             (specific_date_server_reply t thresh tms precs
                                                (target_idx tms t))\<rparr>,
                                          [params'])
                                     | None \<Rightarrow>
                                         (\<lparr>status = 200,
                                           body = NextHoursServer
                                             (next_hours_server_reply (rt_now rt) hoursN thresh tms
                                                precs)\<rparr>,
                                          [params']))
                                | _ \<Rightarrow>
                                    (\<lparr>status = 502,
                                      body = Error ''unexpected weather data format''\<rparr>,
                                     [params']))))))"

section \<open>The words of the specification\<close>

subsection \<open>Rounding and the rain probability\<close>

text \<open>
  Rounding to the nearest integer with a tie going away from zero, and the same at one
  decimal. The rain share of a window is the exact value of the expression that the
  specification caps and rounds: the percentage of the samples above 0.1 mm (the double
  nearest to 0.1) plus the humidity bonus of the program. The formula caps a value at 100
  and rounds it. \<open>rainProbability_spec\<close> is the formula of the specification in exact
  arithmetic, with the bonus decided on the exact mean of the humidity.
\<close>

definition round_half_away :: "rat \<Rightarrow> int" where
  "round_half_away x = (if x < 0 then - \<lfloor>- x + 1 / 2\<rfloor> else \<lfloor>x + 1 / 2\<rfloor>)"

definition round_half_away1 :: "rat \<Rightarrow> rat" where
  "round_half_away1 x = of_int (round_half_away (x * 10)) / 10"


definition rain_formula :: "rat \<Rightarrow> int" where
  "rain_formula t = round_half_away (min 100 t)"


subsection \<open>The rounding of a statistic\<close>

text \<open>
  A value \<open>r\<close> is the statistic \<open>s\<close> rounded to one decimal with a tie going up: \<open>r\<close>
  is a multiple of a tenth, and \<open>s\<close> lies at most half a tenth above it and less than
  half a tenth below it. A negative tie is a statistic below zero that lies half way
  between two multiples of a tenth.

  A number \<open>v\<close> is the statistic \<open>s\<close> rounded as the program does it, by
  \<^verbatim>\<open>Math.round(s * 10) / 10\<close> in doubles: \<open>v\<close> is the double nearest to \<open>k / 10\<close> for
  the integer \<open>k\<close> nearest to the double of the product \<open>s * 10\<close>, the larger one of two
  that are equally near; \<open>k / 10\<close> is as near to \<open>s\<close> as half a tenth and the rounding of
  the product allow; and where the product is a double itself, \<open>k / 10\<close> is \<open>s\<close> rounded
  to one decimal with a tie going up, which is the rounding half away from zero unless
  \<open>s\<close> is a negative tie.
\<close>

definition nearest_tenth_ties_up :: "rat \<Rightarrow> rat \<Rightarrow> bool" where
  "nearest_tenth_ties_up s r \<longleftrightarrow>
     (\<exists>k::int. r = of_int k / 10) \<and> s - 1 / 20 < r \<and> r \<le> s + 1 / 20"

definition negative_tie :: "rat \<Rightarrow> bool" where
  "negative_tie s \<longleftrightarrow> s < 0 \<and> frac (s * 10) = 1 / 2"

definition rounds_to :: "rat \<Rightarrow> number \<Rightarrow> bool" where
  "rounds_to s v \<longleftrightarrow>
     (\<exists>k::int. v = Num (to_double (of_int k / 10))
        \<and> of_int k - 1 / 2 \<le> to_double (s * 10) \<and> to_double (s * 10) < of_int k + 1 / 2
        \<and> \<bar>of_int k / 10 - s\<bar> \<le> 1 / 20 + \<bar>s\<bar> / 2 ^ 53 + 1 / 2 ^ 1075
        \<and> (to_double (s * 10) = s * 10 \<longrightarrow>
             nearest_tenth_ties_up s (of_int k / 10)
             \<and> (of_int k / 10 = round_half_away1 s \<longleftrightarrow> \<not> negative_tie s)))"

subsection \<open>The order of the numbers\<close>

text \<open>The order of the numbers other than \<^verbatim>\<open>NaN\<close>, which is not comparable.\<close>

fun number_le :: "number \<Rightarrow> number \<Rightarrow> bool" where
  "number_le (Num a) (Num b) = (a \<le> b)"
| "number_le (Num a) PosInfinity = True"
| "number_le NegInfinity (Num b) = True"
| "number_le NegInfinity NegInfinity = True"
| "number_le NegInfinity PosInfinity = True"
| "number_le PosInfinity PosInfinity = True"
| "number_le u v = False"

subsection \<open>The nearest sample\<close>

text \<open>
  The index \<open>idx\<close> lies in the series, no sample of the series is nearer to the
  target than the sample at \<open>idx\<close>, and every sample before \<open>idx\<close> is farther from
  it: \<open>idx\<close> is the first of the indices of the least absolute difference.
\<close>

definition first_closest :: "int list \<Rightarrow> int \<Rightarrow> int \<Rightarrow> bool" where
  "first_closest tms target idx \<longleftrightarrow>
     0 \<le> idx \<and> idx < int (length tms)
     \<and> (\<forall>t \<in> set tms. \<bar>tms ! nat idx - target\<bar> \<le> \<bar>t - target\<bar>)
     \<and> (\<forall>t \<in> set (take (nat idx) tms). \<bar>tms ! nat idx - target\<bar> < \<bar>t - target\<bar>)"

section \<open>A provider and requests to run the handlers on\<close>

text \<open>
  Three hourly samples from the instant 0 on, the last one with rain; a runtime that parses
  one date string, the instant of the second sample, and whose provider answers every
  request with the three samples; a request for the next hours, one with an empty
  \<^verbatim>\<open>date\<close> and one with a \<^verbatim>\<open>date\<close> that does not parse.
\<close>

definition example_hourly :: hourly where
  "example_hourly =
     \<lparr>h_time = Some [0, 3600000, 7200000],
      h_precipitation = Some [0, 0, 5],
      h_temperature_2m = Some [10, 11, 12],
      h_relative_humidity_2m = Some [85, 85, 85],
      h_wind_speed_10m = Some [1, 2, 3],
      h_wind_direction_10m = None\<rparr>"

definition example_runtime :: runtime where
  "example_runtime =
     \<lparr>rt_Date = (\<lambda>s. if s = ''1970-01-01T01:00:00Z'' then Some 3600000 else None),
      rt_utc_day = (\<lambda>t. ''1970-01-01''),
      rt_now = 1800000,
      rt_fetch = (\<lambda>ps. Reply 200 (Some example_hourly))\<rparr>"

definition example_query :: query where
  "example_query =
     \<lparr>q_lat = Some ''-31.4'', q_lon = Some ''-64.2'', q_date = None, q_hours = None,
      q_threshold = None\<rparr>"

definition empty_date_query :: query where
  "empty_date_query = example_query\<lparr>q_date := Some []\<rparr>"

definition bad_date_query :: query where
  "bad_date_query = example_query\<lparr>q_date := Some ''tomorrow''\<rparr>"

section \<open>Rounding to the nearest double\<close>

lemma floor_rat_numeral:
  "\<lfloor>numeral a / numeral b :: rat\<rfloor> = numeral a div numeral b"
  by (metis floor_divide_of_int_eq of_int_numeral)

lemma floor_rat_neg_numeral:
  "\<lfloor>- (numeral a / numeral b) :: rat\<rfloor> = - numeral a div numeral b"
  by (metis divide_minus_left floor_divide_of_int_eq of_int_neg_numeral of_int_numeral)

lemma floor_rat_one_numeral:
  "\<lfloor>1 / numeral b :: rat\<rfloor> = 1 div numeral b"
  by (metis floor_divide_of_int_eq of_int_1 of_int_numeral)

lemmas floor_rat = floor_rat_numeral floor_rat_neg_numeral floor_rat_one_numeral

lemma rne_cases:
  "rne y = \<lfloor>y\<rfloor> \<or> rne y = \<lfloor>y\<rfloor> + 1"
  by (simp add: rne_def Let_def)

lemma rne_error: "\<bar>of_int (rne y) - y\<bar> \<le> 1 / 2"
proof -
  have f: "of_int \<lfloor>y\<rfloor> \<le> y" "y < of_int \<lfloor>y\<rfloor> + 1"
    using floor_correct[of y] by simp_all
  show ?thesis
  proof (cases "y - of_int \<lfloor>y\<rfloor> < 1 / 2")
    case True
    then have "rne y = \<lfloor>y\<rfloor>" by (simp add: rne_def Let_def)
    then show ?thesis using True f by simp
  next
    case False
    show ?thesis
    proof (cases "1 / 2 < y - of_int \<lfloor>y\<rfloor>")
      case True
      then have "rne y = \<lfloor>y\<rfloor> + 1" using False by (simp add: rne_def Let_def)
      then show ?thesis using True f by simp
    next
      case half: False
      then have d: "y - of_int \<lfloor>y\<rfloor> = 1 / 2" using False by simp
      from rne_cases[of y] show ?thesis
      proof
        assume "rne y = \<lfloor>y\<rfloor>"
        then show ?thesis using d by simp
      next
        assume "rne y = \<lfloor>y\<rfloor> + 1"
        then show ?thesis using d by simp
      qed
    qed
  qed
qed

lemma rne_of_int [simp]: "rne (of_int k) = k"
  by (simp add: rne_def Let_def)

lemma rne_mono:
  assumes "y \<le> y'"
  shows "rne y \<le> rne y'"
proof (cases "\<lfloor>y\<rfloor> = \<lfloor>y'\<rfloor>")
  case True
  have d: "y - of_int \<lfloor>y\<rfloor> \<le> y' - of_int \<lfloor>y\<rfloor>" using assms by simp
  show ?thesis
    unfolding rne_def Let_def True[symmetric] using d by auto
next
  case False
  have "\<lfloor>y\<rfloor> \<le> \<lfloor>y'\<rfloor>" using assms by (rule floor_mono)
  with False have "\<lfloor>y\<rfloor> + 1 \<le> \<lfloor>y'\<rfloor>" by simp
  moreover have "rne y \<le> \<lfloor>y\<rfloor> + 1" using rne_cases[of y] by auto
  moreover have "\<lfloor>y'\<rfloor> \<le> rne y'" using rne_cases[of y'] by auto
  ultimately show ?thesis by linarith
qed

lemma rne_0 [simp]: "rne 0 = 0"
  using rne_of_int[of 0] by simp

lemma rne_nonneg: "0 \<le> y \<Longrightarrow> 0 \<le> rne y"
  using rne_mono[of 0 y] rne_of_int[of 0] by simp

lemma rne_le_int: "y \<le> of_int k \<Longrightarrow> rne y \<le> k"
  using rne_mono[of y "of_int k"] by simp

lemma rne_ge_int: "of_int k \<le> y \<Longrightarrow> k \<le> rne y"
  using rne_mono[of "of_int k" y] by simp

lemma shift_bounds:
  assumes "0 \<le> z"
  shows "z / 2 ^ shift z < 2 ^ 53" and "shift z = 0 \<or> 2 ^ 52 \<le> z / 2 ^ shift z"
proof -
  define n where "n = \<lfloor>z\<rfloor>"
  define b where "b = bitlen n"
  have n0: "0 \<le> n" using assms by (simp add: n_def)
  have zn: "of_int n \<le> z" "z < of_int (n + 1)"
    using floor_correct[of z] by (simp_all add: n_def)
  have s: "shift z = nat (b - 53)" by (simp add: shift_def n_def b_def)
  have both: "z / 2 ^ shift z < 2 ^ 53 \<and> (shift z = 0 \<or> 2 ^ 52 \<le> z / 2 ^ shift z)"
  proof (cases "n = 0")
    case True
    then have "shift z = 0" by (simp add: s b_def)
    moreover have "z < 1" using zn True by simp
    ultimately show ?thesis by simp
  next
    case False
    then have npos: "0 < n" using n0 by simp
    have bb: "2 ^ nat (b - 1) \<le> n" "n < 2 ^ nat b"
      using bitlen_bounds[OF npos] by (simp_all add: b_def)
    have b1: "1 \<le> b"
      using npos bitlen_eq_zero_iff[of n] bitlen_nonneg[of n] unfolding b_def by linarith
    have "n + 1 \<le> 2 ^ nat b" using bb by simp
    then have "(of_int (n + 1) :: rat) \<le> of_int (2 ^ nat b)" by (simp only: of_int_le_iff)
    then have "(of_int (n + 1) :: rat) \<le> 2 ^ nat b" by simp
    then have zub: "z < 2 ^ nat b" using zn by linarith
    have "(of_int (2 ^ nat (b - 1)) :: rat) \<le> of_int n"
      using bb by (simp only: of_int_le_iff)
    then have "(2 :: rat) ^ nat (b - 1) \<le> of_int n" by simp
    then have zlb: "2 ^ nat (b - 1) \<le> z" using zn by linarith
    show ?thesis
    proof (cases "b \<le> 53")
      case True
      then have s0: "shift z = 0" by (simp add: s)
      have "(2::rat) ^ nat b \<le> 2 ^ 53"
        using True by (intro power_increasing) simp_all
      then show ?thesis using zub s0 by simp
    next
      case False
      then have nb: "nat b = shift z + 53" "nat (b - 1) = shift z + 52"
        using s by simp_all
      have p: "(0::rat) < 2 ^ shift z" by simp
      have "z < 2 ^ 53 * 2 ^ shift z"
        using zub unfolding nb by (simp add: power_add mult.commute)
      then have u: "z / 2 ^ shift z < 2 ^ 53"
        using p by (simp add: pos_divide_less_eq)
      have "2 ^ 52 * 2 ^ shift z \<le> z"
        using zlb unfolding nb by (simp add: power_add mult.commute)
      then have l: "2 ^ 52 \<le> z / 2 ^ shift z"
        using p by (simp add: pos_le_divide_eq)
      from u l show ?thesis by blast
    qed
  qed
  then show "z / 2 ^ shift z < 2 ^ 53" and "shift z = 0 \<or> 2 ^ 52 \<le> z / 2 ^ shift z"
    by blast+
qed

lemma shift_mono:
  assumes "0 \<le> z" and "z \<le> z'"
  shows "shift z \<le> shift z'"
proof -
  have "\<lfloor>z\<rfloor> \<le> \<lfloor>z'\<rfloor>" using assms(2) by (rule floor_mono)
  then have "nat \<lfloor>z\<rfloor> \<le> nat \<lfloor>z'\<rfloor>" by simp
  then have "floorlog 2 (nat \<lfloor>z\<rfloor>) \<le> floorlog 2 (nat \<lfloor>z'\<rfloor>)" by (rule floorlog_mono)
  then show ?thesis by (simp add: shift_def bitlen_def)
qed

lemma round_magnitude_nonneg: "0 \<le> x \<Longrightarrow> 0 \<le> round_magnitude x"
  by (simp add: round_magnitude_def Let_def rne_nonneg)

lemma round_magnitude_0 [simp]: "round_magnitude 0 = 0"
  by (simp add: round_magnitude_def Let_def)

lemma round_magnitude_error:
  assumes "0 \<le> x"
  shows "\<bar>round_magnitude x - x\<bar> \<le> x / 2 ^ 53 + 1 / 2 ^ 1075"
proof -
  define T :: rat where "T = 2 ^ 1074"
  define z where "z = x * T"
  define Q :: rat where "Q = 2 ^ shift z"
  define y where "y = z / Q"
  have T: "0 < T" and Q: "0 < Q" by (simp_all add: T_def Q_def)
  have z0: "0 \<le> z" using assms T by (simp add: z_def)
  have rm: "round_magnitude x = of_int (rne y) * Q / T"
    by (simp add: round_magnitude_def Let_def T_def z_def Q_def y_def)
  have x: "x = y * Q / T" using T Q by (simp add: y_def z_def)
  have "of_int (rne y) * Q / T - y * Q / T = (of_int (rne y) - y) * (Q / T)"
    by (simp add: algebra_simps diff_divide_distrib)
  with x have "round_magnitude x - x = (of_int (rne y) - y) * (Q / T)"
    unfolding rm by simp
  then have "\<bar>round_magnitude x - x\<bar> = \<bar>of_int (rne y) - y\<bar> * (Q / T)"
    using T Q by (simp add: abs_mult)
  also have "\<dots> \<le> 1 / 2 * (Q / T)"
    using rne_error[of y] T Q by (intro mult_right_mono) simp_all
  finally have e: "\<bar>round_magnitude x - x\<bar> \<le> Q / (2 * T)" by simp
  have "Q / (2 * T) \<le> x / 2 ^ 53 + 1 / 2 ^ 1075"
  proof (cases "shift z = 0")
    case True
    then have "Q = 1" by (simp add: Q_def)
    then have "Q / (2 * T) = 1 / 2 ^ 1075" by (simp add: T_def)
    moreover have "0 \<le> x / 2 ^ 53" using assms by simp
    ultimately show ?thesis by linarith
  next
    case False
    then have "2 ^ 52 \<le> z / Q"
      using shift_bounds(2)[OF z0] by (simp add: Q_def)
    then have "2 ^ 52 * Q \<le> z" using Q by (simp add: pos_le_divide_eq)
    then have "Q \<le> x * T / 2 ^ 52" by (simp add: z_def field_simps)
    then have "Q / (2 * T) \<le> (x * T / 2 ^ 52) / (2 * T)"
      using T by (intro divide_right_mono) simp_all
    also have "\<dots> = x / 2 ^ 53" using T by simp
    finally show ?thesis by simp
  qed
  with e show ?thesis by linarith
qed

lemma round_magnitude_mono:
  assumes "0 \<le> x" and "x \<le> x'"
  shows "round_magnitude x \<le> round_magnitude x'"
proof -
  define T :: rat where "T = 2 ^ 1074"
  define z where "z = x * T"
  define z' where "z' = x' * T"
  have T: "0 < T" by (simp add: T_def)
  have z0: "0 \<le> z" "0 \<le> z'" and zz: "z \<le> z'"
    using assms T by (simp_all add: z_def z'_def)
  have rm: "round_magnitude x = of_int (rne (z / 2 ^ shift z)) * 2 ^ shift z / T"
    "round_magnitude x' = of_int (rne (z' / 2 ^ shift z')) * 2 ^ shift z' / T"
    by (simp_all add: round_magnitude_def Let_def T_def z_def z'_def)
  have sm: "shift z \<le> shift z'" using z0(1) zz by (rule shift_mono)
  have "of_int (rne (z / 2 ^ shift z)) * 2 ^ shift z
      \<le> (of_int (rne (z' / 2 ^ shift z')) * 2 ^ shift z' :: rat)"
  proof (cases "shift z = shift z'")
    case True
    have "z / 2 ^ shift z' \<le> z' / 2 ^ shift z'"
      using zz by (intro divide_right_mono) simp_all
    then have "rne (z / 2 ^ shift z') \<le> rne (z' / 2 ^ shift z')" by (rule rne_mono)
    then have "(of_int (rne (z / 2 ^ shift z')) :: rat) \<le> of_int (rne (z' / 2 ^ shift z'))"
      by simp
    then show ?thesis unfolding True by (intro mult_right_mono) simp_all
  next
    case False
    with sm have lt: "Suc (shift z) \<le> shift z'" by simp
    then have "shift z' \<noteq> 0" by simp
    then have "2 ^ 52 \<le> z' / 2 ^ shift z'" using shift_bounds(2)[OF z0(2)] by simp
    then have "(of_int (2 ^ 52) :: rat) \<le> z' / 2 ^ shift z'" by simp
    then have "2 ^ 52 \<le> rne (z' / 2 ^ shift z')" by (rule rne_ge_int)
    then have "(of_int (2 ^ 52) :: rat) \<le> of_int (rne (z' / 2 ^ shift z'))"
      by (simp only: of_int_le_iff)
    then have big: "(2 ^ 52 :: rat) * 2 ^ shift z' \<le> of_int (rne (z' / 2 ^ shift z')) * 2 ^ shift z'"
      by (intro mult_right_mono) simp_all
    have "z / 2 ^ shift z \<le> of_int (2 ^ 53)"
      using shift_bounds(1)[OF z0(1)] by simp
    then have "rne (z / 2 ^ shift z) \<le> 2 ^ 53" by (rule rne_le_int)
    then have "(of_int (rne (z / 2 ^ shift z)) :: rat) \<le> of_int (2 ^ 53)"
      by (simp only: of_int_le_iff)
    then have small: "of_int (rne (z / 2 ^ shift z)) * 2 ^ shift z \<le> (2 ^ 53 :: rat) * 2 ^ shift z"
      by (intro mult_right_mono) simp_all
    have "(2 ^ 53 :: rat) * 2 ^ shift z = 2 ^ 52 * 2 ^ Suc (shift z)" by simp
    also have "\<dots> \<le> 2 ^ 52 * 2 ^ shift z'"
      using lt by (intro mult_left_mono power_increasing) simp_all
    finally show ?thesis using small big by linarith
  qed
  then show ?thesis unfolding rm using T by (intro divide_right_mono) simp_all
qed

lemma shift_eq:
  assumes "0 \<le> z" and "z / 2 ^ s < 2 ^ 53" and "s = 0 \<or> 2 ^ 52 \<le> z / 2 ^ s"
  shows "shift z = s"
proof -
  define n where "n = \<lfloor>z\<rfloor>"
  have p: "(0::rat) < 2 ^ s" by simp
  have "z < 2 ^ 53 * 2 ^ s" using assms(2) p by (simp add: pos_divide_less_eq)
  then have "z < of_int (2 ^ (53 + s))" by (simp add: power_add)
  then have "n < 2 ^ (53 + s)" unfolding n_def floor_less_iff .
  then have "n < 2 ^ nat (53 + int s)" by (simp add: nat_add_distrib)
  then have ub: "bitlen n \<le> 53 + int s"
    unfolding bitlen_le_iff_power by simp
  from assms(3) show ?thesis
  proof
    assume s0: "s = 0"
    then show ?thesis using ub by (simp add: shift_def n_def)
  next
    assume "2 ^ 52 \<le> z / 2 ^ s"
    then have "2 ^ 52 * 2 ^ s \<le> z" using p by (simp add: pos_le_divide_eq)
    then have "of_int (2 ^ (52 + s)) \<le> z" by (simp add: power_add)
    then have "2 ^ (52 + s) \<le> n" unfolding n_def le_floor_iff .
    then have "2 ^ (nat (53 + int s) - 1) \<le> n" by (simp add: nat_add_distrib)
    then have "53 + int s \<le> bitlen n"
      unfolding bitlen_ge_iff_power by simp
    with ub have "bitlen n = 53 + int s" by simp
    then show ?thesis by (simp add: shift_def n_def)
  qed
qed

lemma round_magnitude_shift:
  assumes "0 \<le> x" and "T = (2::rat) ^ 1074" and "x * T / 2 ^ s = y"
    and "y < 2 ^ 53" and "s = 0 \<or> 2 ^ 52 \<le> y"
  shows "round_magnitude x = of_int (rne y) * 2 ^ s / T"
proof -
  have "shift (x * T) = s"
  proof (rule shift_eq)
    show "0 \<le> x * T" using assms(1,2) by simp
    show "x * T / 2 ^ s < 2 ^ 53" unfolding assms(3) by (rule assms(4))
    show "s = 0 \<or> 2 ^ 52 \<le> x * T / 2 ^ s" unfolding assms(3) by (rule assms(5))
  qed
  then have "round_magnitude x = of_int (rne (x * T / 2 ^ s)) * 2 ^ s / T"
    unfolding assms(2) by (simp add: round_magnitude_def Let_def)
  then show ?thesis unfolding assms(3) .
qed

lemma round_magnitude_below:
  assumes "k \<le> 1074" and "2 ^ 52 \<le> x * 2 ^ k" and "x * 2 ^ k < 2 ^ 53"
  shows "round_magnitude x = of_int (rne (x * 2 ^ k)) / 2 ^ k"
proof -
  define s where "s = 1074 - k"
  define T :: rat where "T = 2 ^ 1074"
  have sk: "s + k = 1074" using assms(1) by (simp add: s_def)
  have T: "T = 2 ^ s * 2 ^ k"
    unfolding T_def sk[symmetric] by (simp add: power_add)
  have x0: "0 \<le> x"
  proof (rule ccontr)
    assume "\<not> 0 \<le> x"
    then have "x * 2 ^ k < 0" by (simp add: mult_less_0_iff)
    with assms(2) show False by simp
  qed
  have y: "x * T / 2 ^ s = x * 2 ^ k" unfolding T by simp
  have "round_magnitude x = of_int (rne (x * 2 ^ k)) * 2 ^ s / T"
    using x0 T_def y assms(3) by (rule round_magnitude_shift) (use assms(2) in blast)
  also have "\<dots> = of_int (rne (x * 2 ^ k)) / 2 ^ k" unfolding T by simp
  finally show ?thesis .
qed

lemma round_magnitude_above:
  assumes "2 ^ 52 \<le> x / 2 ^ k" and "x / 2 ^ k < 2 ^ 53"
  shows "round_magnitude x = of_int (rne (x / 2 ^ k)) * 2 ^ k"
proof -
  define s where "s = 1074 + k"
  define T :: rat where "T = 2 ^ 1074"
  have T0: "0 < T" by (simp add: T_def)
  have S: "(2::rat) ^ s = T * 2 ^ k" by (simp add: s_def T_def power_add)
  have x0: "0 \<le> x"
  proof (rule ccontr)
    assume "\<not> 0 \<le> x"
    then have "x / 2 ^ k < 0" by (simp add: divide_less_0_iff)
    with assms(1) show False by simp
  qed
  have y: "x * T / 2 ^ s = x / 2 ^ k" unfolding S using T0 by simp
  have "round_magnitude x = of_int (rne (x / 2 ^ k)) * 2 ^ s / T"
    using x0 T_def y assms(2) by (rule round_magnitude_shift) (use assms(1) in blast)
  also have "\<dots> = of_int (rne (x / 2 ^ k)) * 2 ^ k" unfolding S using T0 by simp
  finally show ?thesis .
qed

lemma round_magnitude_tiny:
  assumes "0 \<le> x" and "x * 2 ^ 1074 < 2 ^ 53"
  shows "round_magnitude x = of_int (rne (x * 2 ^ 1074)) / 2 ^ 1074"
proof -
  have "shift (x * 2 ^ 1074) = 0"
    by (rule shift_eq) (use assms in simp_all)
  then show ?thesis by (simp add: round_magnitude_def Let_def)
qed

lemma round_magnitude_int:
  assumes "0 \<le> m" and "m \<le> 2 ^ 53"
  shows "round_magnitude (of_int m) = of_int m"
proof (cases "m = 0")
  case True
  then show ?thesis by simp
next
  case False
  then have mpos: "0 < m" using assms(1) by simp
  define b where "b = nat (bitlen m)"
  have bl1: "1 \<le> bitlen m"
    using mpos bitlen_eq_zero_iff[of m] bitlen_nonneg[of m] by linarith
  then have b1: "1 \<le> b" unfolding b_def by linarith
  have nb: "nat (bitlen m - 1) = b - 1" using bl1 by (simp add: b_def nat_diff_distrib)
  have bb: "2 ^ (b - 1) \<le> m" "m < 2 ^ b"
    using bitlen_bounds[OF mpos] unfolding nb b_def[symmetric] by blast+
  show ?thesis
  proof (cases "b \<le> 53")
    case True
    define k where "k = 53 - b"
    have kb: "k + b = 53" "k + (b - 1) = 52" using True b1 by (simp_all add: k_def)
    have "(2::int) ^ 52 = 2 ^ (b - 1) * 2 ^ k" unfolding kb(2)[symmetric] by (simp add: power_add)
    also have "\<dots> \<le> m * 2 ^ k" using bb(1) by (intro mult_right_mono) simp_all
    finally have "(of_int (2 ^ 52) :: rat) \<le> of_int (m * 2 ^ k)" by (simp only: of_int_le_iff)
    then have lo: "(2::rat) ^ 52 \<le> of_int m * 2 ^ k" by simp
    have "m * 2 ^ k < 2 ^ b * 2 ^ k" using bb(2) by (intro mult_strict_right_mono) simp_all
    also have "\<dots> = (2::int) ^ 53" unfolding kb(1)[symmetric] by (simp add: power_add)
    finally have "(of_int (m * 2 ^ k) :: rat) < of_int (2 ^ 53)" by (simp only: of_int_less_iff)
    then have hi: "of_int m * 2 ^ k < (2::rat) ^ 53" by simp
    have "k \<le> 1074" by (simp add: k_def)
    then have "round_magnitude (of_int m) = of_int (rne (of_int m * 2 ^ k)) / 2 ^ k"
      using lo hi by (rule round_magnitude_below)
    moreover have "(of_int m :: rat) * 2 ^ k = of_int (m * 2 ^ k)" by simp
    ultimately have "round_magnitude (of_int m) = of_int (m * 2 ^ k) / 2 ^ k"
      by (simp only: rne_of_int)
    then show ?thesis by simp
  next
    case False
    then have "2 ^ 53 \<le> (2::int) ^ (b - 1)"
      by (intro power_increasing) simp_all
    with bb(1) assms(2) have m: "m = 2 ^ 53" by linarith
    have "round_magnitude (2 ^ 53) = of_int (rne (2 ^ 53 / 2 ^ 1)) * 2 ^ 1"
      by (rule round_magnitude_above) simp_all
    moreover have "(2::rat) ^ 53 / 2 ^ 1 = of_int (2 ^ 52)" by simp
    ultimately have "round_magnitude (2 ^ 53) = of_int (2 ^ 52) * 2 ^ 1"
      by (simp only: rne_of_int)
    then show ?thesis unfolding m by simp
  qed
qed

lemma to_double_0 [simp]: "to_double 0 = 0"
  by (simp add: to_double_def)

lemma to_double_minus: "to_double (- x) = - to_double x"
  by (cases x "0::rat" rule: linorder_cases) (simp_all add: to_double_def)

lemma to_double_nonneg: "0 \<le> x \<Longrightarrow> 0 \<le> to_double x"
  by (simp add: to_double_def round_magnitude_nonneg)

lemma to_double_mono:
  assumes "x \<le> y"
  shows "to_double x \<le> to_double y"
proof (cases "x < 0")
  case False
  then show ?thesis using assms by (simp add: to_double_def round_magnitude_mono)
next
  case True
  show ?thesis
  proof (cases "y < 0")
    case False
    have "0 \<le> round_magnitude (- x)" using True by (intro round_magnitude_nonneg) simp
    moreover have "0 \<le> round_magnitude y" using False by (intro round_magnitude_nonneg) simp
    ultimately show ?thesis using True False by (simp add: to_double_def)
  next
    case yneg: True
    have "round_magnitude (- y) \<le> round_magnitude (- x)"
      using assms yneg by (intro round_magnitude_mono) simp_all
    then show ?thesis using True yneg by (simp add: to_double_def)
  qed
qed

lemma to_double_error: "\<bar>to_double x - x\<bar> \<le> \<bar>x\<bar> / 2 ^ 53 + 1 / 2 ^ 1075"
proof (cases "x < 0")
  case False
  then show ?thesis using round_magnitude_error[of x] by (simp add: to_double_def)
next
  case True
  have "\<bar>round_magnitude (- x) - (- x)\<bar> \<le> (- x) / 2 ^ 53 + 1 / 2 ^ 1075"
    using True by (intro round_magnitude_error) simp
  moreover have "\<bar>- round_magnitude (- x) - x\<bar> = \<bar>round_magnitude (- x) - (- x)\<bar>"
    by (simp add: abs_minus_commute)
  ultimately show ?thesis using True by (simp add: to_double_def)
qed

lemma to_double_int:
  assumes "\<bar>m\<bar> \<le> 2 ^ 53"
  shows "to_double (of_int m) = of_int m"
proof (cases "m < 0")
  case False
  then show ?thesis using assms by (simp add: to_double_def round_magnitude_int)
next
  case True
  then have "round_magnitude (of_int (- m)) = of_int (- m)"
    using assms by (intro round_magnitude_int) simp_all
  then show ?thesis using True by (simp add: to_double_def)
qed

lemma to_double_abs_le:
  assumes "\<bar>x\<bar> \<le> of_int m" and "m \<le> 2 ^ 53"
  shows "\<bar>to_double x\<bar> \<le> of_int m"
proof -
  have m0: "0 \<le> m" using assms(1) by (metis abs_ge_zero of_int_0_le_iff order_trans)
  then have am: "\<bar>m\<bar> \<le> 2 ^ 53" "\<bar>- m\<bar> \<le> 2 ^ 53" using assms(2) by simp_all
  have "to_double x \<le> to_double (of_int m)"
    using assms(1) by (intro to_double_mono) simp
  moreover have "to_double (of_int (- m)) \<le> to_double x"
    using assms(1) by (intro to_double_mono) simp
  ultimately show ?thesis
    unfolding to_double_int[OF am(1)] to_double_int[OF am(2)] by simp
qed

lemma to_double_below:
  assumes "k \<le> 1074" and "2 ^ 52 \<le> x * 2 ^ k" and "x * 2 ^ k < 2 ^ 53"
  shows "to_double x = of_int (rne (x * 2 ^ k)) / 2 ^ k"
proof -
  have "\<not> x < 0"
  proof
    assume "x < 0"
    then have "x * 2 ^ k < 0" by (simp add: mult_less_0_iff)
    with assms(2) show False by simp
  qed
  then show ?thesis using round_magnitude_below[OF assms] by (simp add: to_double_def)
qed

section \<open>The numbers of the program\<close>

lemma number_of_small:
  assumes "\<bar>x\<bar> \<le> of_int m" and "m \<le> 2 ^ 53"
  shows "number_of x = Num (to_double x)"
proof -
  have "\<bar>to_double x\<bar> \<le> of_int m" using assms by (rule to_double_abs_le)
  moreover have "(of_int m :: rat) \<le> of_int (2 ^ 53)" using assms(2) by (simp only: of_int_le_iff)
  moreover have "(of_int (2 ^ 53) :: rat) < 2 ^ 1024" by simp
  ultimately have "\<bar>to_double x\<bar> < 2 ^ 1024" by linarith
  then have "\<not> 2 ^ 1024 \<le> to_double x" "\<not> to_double x \<le> - (2 ^ 1024)" by linarith+
  then show ?thesis by (simp add: number_of_def Let_def)
qed

lemma number_of_int: "\<bar>m\<bar> \<le> 2 ^ 53 \<Longrightarrow> number_of (of_int m) = Num (of_int m)"
  using number_of_small[of "of_int m" "\<bar>m\<bar>"] to_double_int[of m] by simp

lemma number_of_0 [simp]: "number_of 0 = Num 0"
  by (simp add: number_of_def Let_def)

lemma number_of_cases:
  obtains (fin) "number_of x = Num (to_double x)" "to_double x < 2 ^ 1024"
      "- (2 ^ 1024) < to_double x"
    | (pos) "number_of x = PosInfinity" "2 ^ 1024 \<le> to_double x"
    | (neg) "number_of x = NegInfinity" "to_double x \<le> - (2 ^ 1024)"
proof (cases "2 ^ 1024 \<le> to_double x")
  case True
  then show ?thesis using pos by (simp add: number_of_def Let_def)
next
  case False
  show ?thesis
  proof (cases "to_double x \<le> - (2 ^ 1024)")
    case True
    then show ?thesis using False neg by (simp add: number_of_def Let_def)
  next
    case nn: False
    then show ?thesis using False fin by (simp add: number_of_def Let_def)
  qed
qed

lemma number_of_mono:
  assumes "x \<le> y"
  shows "number_le (number_of x) (number_of y)"
proof -
  have m: "to_double x \<le> to_double y" using assms by (rule to_double_mono)
  show ?thesis
    by (cases x rule: number_of_cases; cases y rule: number_of_cases) (use m in simp_all)
qed

lemma number_le_refl_of [simp]: "number_le (number_of x) (number_of x)"
  by (rule number_of_mono) simp

lemma number_le_of_PosInfinity [simp]: "number_le (number_of x) PosInfinity"
  by (cases x rule: number_of_cases) simp_all

lemma number_le_NegInfinity_of [simp]: "number_le NegInfinity (number_of x)"
  by (cases x rule: number_of_cases) simp_all

lemma number_le_trans: "number_le u v \<Longrightarrow> number_le v w \<Longrightarrow> number_le u w"
  by (cases u; cases v; cases w) simp_all

lemma num_mul_mono:
  assumes "number_le u v" and "0 < k"
  shows "number_le (num_mul u k) (num_mul v k)"
  using assms by (cases u; cases v) (simp_all add: number_of_mono mult_right_mono)

lemma num_add_mono:
  assumes "number_le u v"
  shows "number_le (num_add u b) (num_add v b)"
  using assms by (cases u; cases v) (simp_all add: number_of_mono)

lemma Math_round_mono:
  assumes "number_le u v"
  shows "number_le (Math_round u) (Math_round v)"
  using assms by (cases u; cases v) (simp_all add: floor_mono)

lemma nonneg_num_mul:
  assumes "number_le (Num 0) u" and "0 < k"
  shows "number_le (Num 0) (num_mul u k)"
  using num_mul_mono[OF assms] by simp

lemma nonneg_num_add:
  assumes "number_le (Num 0) u" and "0 \<le> b"
  shows "number_le (Num 0) (num_add u b)"
proof -
  have "number_le (number_of 0) (number_of b)" using assms(2) by (rule number_of_mono)
  then have "number_le (Num 0) (num_add (Num 0) b)" by simp
  moreover have "number_le (num_add (Num 0) b) (num_add u b)"
    using assms(1) by (rule num_add_mono)
  ultimately show ?thesis by (rule number_le_trans)
qed

lemma Math_min_100_round:
  assumes "number_le (Num 0) u" and "number_le u v"
  shows "\<exists>p p'. Math_min_100 (Math_round u) = Num (of_int p)
           \<and> Math_min_100 (Math_round v) = Num (of_int p') \<and> 0 \<le> p \<and> p \<le> p' \<and> p' \<le> 100"
proof -
  have fin: "\<exists>p. Math_min_100 (Math_round w) = Num (of_int p) \<and> 0 \<le> p \<and> p \<le> 100
        \<and> (\<forall>a. w = Num a \<longrightarrow> p = min 100 \<lfloor>a + 1 / 2\<rfloor>) \<and> (w = PosInfinity \<longrightarrow> p = 100)"
    if "number_le (Num 0) w" for w
  proof (cases w)
    case (Num a)
    then have "0 \<le> a" using that by simp
    then have "of_int 0 \<le> a + 1 / 2" by simp
    then have "0 \<le> \<lfloor>a + 1 / 2\<rfloor>" unfolding le_floor_iff .
    moreover have "Math_min_100 (Math_round w) = Num (of_int (min 100 \<lfloor>a + 1 / 2\<rfloor>))"
      unfolding Num by simp
    ultimately show ?thesis using Num by auto
  next
    case PosInfinity
    have "Math_min_100 (Math_round w) = Num (of_int 100)" unfolding PosInfinity by simp
    then show ?thesis using PosInfinity by auto
  qed (use that in simp_all)
  have v0: "number_le (Num 0) v" using assms by (rule number_le_trans)
  obtain p where p: "Math_min_100 (Math_round u) = Num (of_int p)" "0 \<le> p" "p \<le> 100"
    "\<forall>a. u = Num a \<longrightarrow> p = min 100 \<lfloor>a + 1 / 2\<rfloor>" "u = PosInfinity \<longrightarrow> p = 100"
    using fin[OF assms(1)] by blast
  obtain p' where p': "Math_min_100 (Math_round v) = Num (of_int p')" "0 \<le> p'" "p' \<le> 100"
    "\<forall>a. v = Num a \<longrightarrow> p' = min 100 \<lfloor>a + 1 / 2\<rfloor>" "v = PosInfinity \<longrightarrow> p' = 100"
    using fin[OF v0] by blast
  have "p \<le> p'"
  proof (cases v)
    case PosInfinity
    then show ?thesis using p(3) p'(5) by simp
  next
    case (Num b)
    then obtain a where a: "u = Num a" "a \<le> b" using assms by (cases u) simp_all
    have "\<lfloor>a + 1 / 2\<rfloor> \<le> \<lfloor>b + 1 / 2\<rfloor>" using a(2) by (intro floor_mono) simp
    then show ?thesis using p(4) p'(4) a(1) Num by simp
  qed (use v0 in simp_all)
  with p p' show ?thesis by blast
qed

lemma number_of_eval:
  assumes "to_double x = d" and "- (2 ^ 1024) < d" and "d < 2 ^ 1024"
  shows "number_of x = Num d"
  using assms by (simp add: number_of_def Let_def)

lemma to_double_tenth: "to_double (1 / 10) = 3602879701896397 / 36028797018963968"
  using to_double_below[of 56 "1 / 10"] by (simp add: rne_def Let_def floor_rat)

lemma number_of_numeral:
  "numeral n \<le> (2::int) ^ 53 \<Longrightarrow> number_of (numeral n) = Num (numeral n)"
  using number_of_int[of "numeral n"] by simp


lemma number_of_dyadic:
  assumes "k \<le> 1074" and "2 ^ 52 \<le> \<bar>x\<bar> * 2 ^ k" and "\<bar>x\<bar> * 2 ^ k < 2 ^ 53"
    and "\<bar>x\<bar> * 2 ^ k = of_int m"
  shows "number_of x = Num x"
proof -
  have r: "rne (\<bar>x\<bar> * 2 ^ k) = m" unfolding assms(4) by (rule rne_of_int)
  have "to_double \<bar>x\<bar> = of_int (rne (\<bar>x\<bar> * 2 ^ k)) / 2 ^ k"
    using assms(1-3) by (rule to_double_below)
  also have "\<dots> = \<bar>x\<bar> * 2 ^ k / 2 ^ k" by (simp only: assms(4) rne_of_int)
  also have "\<dots> = \<bar>x\<bar>" by simp
  finally have a: "to_double \<bar>x\<bar> = \<bar>x\<bar>" .
  have d: "to_double x = x"
  proof (cases "x < 0")
    case True
    then have "to_double (- x) = - x" using a by simp
    then show ?thesis unfolding to_double_minus by simp
  next
    case False
    then show ?thesis using a by simp
  qed
  have "\<bar>x\<bar> < 2 ^ 53 / 2 ^ k" using assms(3) by (simp add: pos_less_divide_eq)
  also have "\<dots> \<le> 2 ^ 53" by (simp add: divide_le_eq)
  finally have "\<bar>x\<bar> < 2 ^ 1024" by simp
  then have "- (2 ^ 1024) < x" "x < 2 ^ 1024" by linarith+
  with d show ?thesis by (intro number_of_eval) simp_all
qed

lemma number_of_bounded:
  assumes "0 \<le> x" and "x \<le> of_int m" and "m \<le> 2 ^ 53"
  shows "number_of x = Num (to_double x)" and "0 \<le> to_double x" and "to_double x \<le> of_int m"
    and "\<bar>to_double x - x\<bar> \<le> of_int m / 2 ^ 53 + 1 / 2 ^ 1075"
proof -
  have a: "\<bar>x\<bar> \<le> of_int m" using assms by simp
  show "number_of x = Num (to_double x)" using a assms(3) by (rule number_of_small)
  show "0 \<le> to_double x" using assms(1) by (rule to_double_nonneg)
  show "to_double x \<le> of_int m" using to_double_abs_le[OF a assms(3)] by simp
  have "\<bar>to_double x - x\<bar> \<le> \<bar>x\<bar> / 2 ^ 53 + 1 / 2 ^ 1075" by (rule to_double_error)
  moreover have "\<bar>x\<bar> / 2 ^ 53 \<le> of_int m / 2 ^ 53" using a by (intro divide_right_mono) simp_all
  ultimately show "\<bar>to_double x - x\<bar> \<le> of_int m / 2 ^ 53 + 1 / 2 ^ 1075" by linarith
qed

lemma number_of_tenth: "number_of (1 / 10) = Num (3602879701896397 / 36028797018963968)"
  using to_double_tenth by (rule number_of_eval) simp_all

lemma threshNum_default: "threshNum None = Num (3602879701896397 / 36028797018963968)"
  by (simp add: threshNum_def parseFloat_def isWhiteSpace_def isDigit_def digits_value_def
      scale10_def exponent_part_def number_of_tenth to_double_tenth)

section \<open>Arithmetic of the rounding\<close>

lemma round_half_away_nonneg: "0 \<le> x \<Longrightarrow> round_half_away x = \<lfloor>x + 1 / 2\<rfloor>"
  by (simp add: round_half_away_def)

lemma round_half_away_mono:
  assumes "x \<le> y"
  shows "round_half_away x \<le> round_half_away y"
proof (cases "y < 0")
  case True
  then have "x < 0" using assms by simp
  have "\<lfloor>- y + 1 / 2\<rfloor> \<le> \<lfloor>- x + 1 / 2\<rfloor>" using assms by (intro floor_mono) simp
  then show ?thesis using True \<open>x < 0\<close> by (simp add: round_half_away_def)
next
  case False
  then have "of_int 0 \<le> y + 1 / 2" by simp
  then have y0: "0 \<le> \<lfloor>y + 1 / 2\<rfloor>" unfolding le_floor_iff .
  show ?thesis
  proof (cases "x < 0")
    case True
    then have "of_int 0 \<le> - x + 1 / 2" by simp
    then have x0: "0 \<le> \<lfloor>- x + 1 / 2\<rfloor>" unfolding le_floor_iff .
    have "round_half_away x = - \<lfloor>- x + 1 / 2\<rfloor>" "round_half_away y = \<lfloor>y + 1 / 2\<rfloor>"
      using True False by (simp_all only: round_half_away_def if_True if_False)
    then show ?thesis using x0 y0 by linarith
  next
    case xn: False
    have "\<lfloor>x + 1 / 2\<rfloor> \<le> \<lfloor>y + 1 / 2\<rfloor>" using assms by (intro floor_mono) simp
    then show ?thesis using xn False by (simp add: round_half_away_def)
  qed
qed

lemma rain_formula_mono: "s \<le> t \<Longrightarrow> rain_formula s \<le> rain_formula t"
  unfolding rain_formula_def by (intro round_half_away_mono) simp

lemma min_round:
  "min 100 \<lfloor>x + 1 / 2\<rfloor> = \<lfloor>min 100 (x::rat) + 1 / 2\<rfloor>"
proof (cases "x < 100")
  case True
  then have "x + 1 / 2 < of_int 100 + 1" by simp
  then have "\<lfloor>x + 1 / 2\<rfloor> \<le> 100" unfolding floor_le_iff[symmetric] .
  then have "min 100 \<lfloor>x + 1 / 2\<rfloor> = \<lfloor>x + 1 / 2\<rfloor>" by (rule min_absorb2)
  moreover have "min 100 x = x" using True by simp
  ultimately show ?thesis by simp
next
  case False
  then have "of_int 100 \<le> x + 1 / 2" by simp
  then have "100 \<le> \<lfloor>x + 1 / 2\<rfloor>" unfolding le_floor_iff .
  then have "min 100 \<lfloor>x + 1 / 2\<rfloor> = 100" by (rule min_absorb1)
  moreover have "min 100 x = 100" using False by simp
  moreover have "\<lfloor>(100::rat) + 1 / 2\<rfloor> = 100" by (rule floor_unique) simp_all
  ultimately show ?thesis by simp
qed

lemma rain_formula_nonneg: "0 \<le> x \<Longrightarrow> rain_formula x = min 100 \<lfloor>x + 1 / 2\<rfloor>"
  unfolding rain_formula_def min_round by (intro round_half_away_nonneg) simp

lemma tenth_nearest: "nearest_tenth_ties_up x (of_int \<lfloor>x * 10 + 1 / 2\<rfloor> / 10)"
proof -
  define k where "k = \<lfloor>x * 10 + 1 / 2\<rfloor>"
  have lo: "of_int k \<le> x * 10 + 1 / 2" and hi: "x * 10 + 1 / 2 < of_int k + 1"
    using floor_correct[of "x * 10 + 1 / 2"] unfolding k_def by simp_all
  have "x - 1 / 20 < of_int k / 10" using hi by (simp add: field_simps)
  moreover have "of_int k / 10 \<le> x + 1 / 20" using lo by (simp add: field_simps)
  ultimately show ?thesis
    unfolding nearest_tenth_ties_up_def k_def[symmetric] by blast
qed

lemma half_floor_iff:
  fixes y :: rat
  shows "\<lfloor>y + 1 / 2\<rfloor> = - \<lfloor>- y + 1 / 2\<rfloor> \<longleftrightarrow> frac y \<noteq> 1 / 2"
proof -
  define z where "z = y - 1 / 2"
  have up: "\<lfloor>y + 1 / 2\<rfloor> = \<lfloor>z\<rfloor> + 1"
  proof -
    have "y + 1 / 2 = z + of_int 1" by (simp add: z_def)
    then show ?thesis by (simp only: floor_add_int[symmetric])
  qed
  have dn: "- \<lfloor>- y + 1 / 2\<rfloor> = \<lceil>z\<rceil>"
  proof -
    have "- y + 1 / 2 = - z" by (simp add: z_def)
    then show ?thesis by (simp add: ceiling_def)
  qed
  have int_iff: "z = of_int \<lfloor>z\<rfloor> \<longleftrightarrow> frac y = 1 / 2"
  proof
    assume "z = of_int \<lfloor>z\<rfloor>"
    then have y: "y = of_int \<lfloor>z\<rfloor> + 1 / 2" by (simp add: z_def)
    have "\<lfloor>y\<rfloor> = \<lfloor>z\<rfloor>"
      by (rule floor_unique) (simp_all add: y)
    then show "frac y = 1 / 2" unfolding frac_def using y by simp
  next
    assume "frac y = 1 / 2"
    then have "y = of_int \<lfloor>y\<rfloor> + 1 / 2" by (simp add: frac_def)
    then have zy: "z = of_int \<lfloor>y\<rfloor>" by (simp add: z_def)
    then have "\<lfloor>z\<rfloor> = \<lfloor>y\<rfloor>" by simp
    with zy show "z = of_int \<lfloor>z\<rfloor>" by simp
  qed
  show ?thesis
    unfolding up dn ceiling_altdef int_iff[symmetric] by simp
qed

lemma tenth_half_away_iff:
  "of_int \<lfloor>x * 10 + 1 / 2\<rfloor> / 10 = round_half_away1 x \<longleftrightarrow> \<not> negative_tie x"
proof (cases "x < 0")
  case False
  then have "\<not> x * 10 < 0" by (simp add: mult_less_0_iff)
  then have "round_half_away (x * 10) = \<lfloor>x * 10 + 1 / 2\<rfloor>"
    by (simp add: round_half_away_def)
  then show ?thesis using False
    by (simp add: round_half_away1_def negative_tie_def)
next
  case True
  then have neg: "x * 10 < 0" by (simp add: mult_less_0_iff)
  have "of_int \<lfloor>x * 10 + 1 / 2\<rfloor> / 10 = round_half_away1 x
      \<longleftrightarrow> \<lfloor>x * 10 + 1 / 2\<rfloor> = round_half_away (x * 10)"
    by (simp add: round_half_away1_def)
  also have "\<dots> \<longleftrightarrow> \<lfloor>x * 10 + 1 / 2\<rfloor> = - \<lfloor>- (x * 10) + 1 / 2\<rfloor>"
    using neg by (simp only: round_half_away_def if_True)
  also have "\<dots> \<longleftrightarrow> frac (x * 10) \<noteq> 1 / 2"
    by (rule half_floor_iff)
  finally show ?thesis using True by (simp add: negative_tie_def)
qed

section \<open>The rain probability\<close>

lemma humidityBonus_cases: "humidityBonus h = 0 \<or> humidityBonus h = 5 \<or> humidityBonus h = 10"
  by (simp add: humidityBonus_def Let_def split: option.split)

lemma calculateRainProbability_close:
  assumes "1 \<le> hours"
    and "int (length (filter (\<lambda>p. p > to_double (1 / 10)) precipitation)) \<le> hours"
  shows "\<exists>x. calculateRainProbability precipitation humidity hours
                 = Num (of_int (rain_formula x))
           \<and> 0 \<le> rain_formula x \<and> rain_formula x \<le> 100
           \<and> \<bar>x - (of_nat (length (filter (\<lambda>p. p > to_double (1 / 10)) precipitation))
                      / of_int hours * 100 + humidityBonus humidity)\<bar> \<le> 1 / 2 ^ 40"
proof -
  define q :: rat where "q = of_nat (length (filter (\<lambda>p. p > to_double (1 / 10)) precipitation))
      / of_int hours"
  define b where "b = humidityBonus humidity"
  define a1 where "a1 = to_double q"
  define a2 where "a2 = to_double (a1 * 100)"
  define a3 where "a3 = to_double (a2 + b)"
  define e :: rat where "e = 1 / 2 ^ 1075"
  have h: "(0::rat) < of_int hours" using assms(1) by simp
  have "(of_int (int (length (filter (\<lambda>p. p > to_double (1 / 10)) precipitation))) :: rat)
      \<le> of_int hours"
    using assms(2) by (simp only: of_int_le_iff)
  then have q: "0 \<le> q" "q \<le> of_int 1"
    using h unfolding q_def by (simp_all add: divide_le_eq_1)
  have b: "0 \<le> b" "b \<le> 10" using humidityBonus_cases[of humidity] unfolding b_def by auto
  have n0: "of_int hours \<noteq> (0::rat)" using h by simp
  have s1: "number_of q = Num a1" "0 \<le> a1" "a1 \<le> 1" "\<bar>a1 - q\<bar> \<le> 1 / 2 ^ 53 + e"
    using number_of_bounded[OF q] unfolding a1_def e_def by simp_all
  have "0 \<le> a1 * 100" "a1 * 100 \<le> of_int 100" using s1 by simp_all
  then have s2: "number_of (a1 * 100) = Num a2" "0 \<le> a2" "a2 \<le> 100"
    "\<bar>a2 - a1 * 100\<bar> \<le> 100 / 2 ^ 53 + e"
    using number_of_bounded[of "a1 * 100" 100] unfolding a2_def e_def by simp_all
  have "0 \<le> a2 + b" "a2 + b \<le> of_int 110" using s2 b by simp_all
  then have s3: "number_of (a2 + b) = Num a3" "0 \<le> a3" "a3 \<le> 110"
    "\<bar>a3 - (a2 + b)\<bar> \<le> 110 / 2 ^ 53 + e"
    using number_of_bounded[of "a2 + b" 110] unfolding a3_def e_def by simp_all
  have "\<bar>a3 - (q * 100 + b)\<bar> \<le> 310 / 2 ^ 53 + 102 * e"
    using s1(4) s2(4) s3(4) by (simp add: abs_le_iff)
  moreover have "310 / 2 ^ 53 + 102 * e \<le> 1 / 2 ^ 40" by (simp add: e_def)
  ultimately have close: "\<bar>a3 - (q * 100 + b)\<bar> \<le> 1 / 2 ^ 40" by linarith
  have code: "calculateRainProbability precipitation humidity hours
      = Num (of_int (min 100 \<lfloor>a3 + 1 / 2\<rfloor>))"
    using n0 s1(1) s2(1) s3(1)
    by (simp add: calculateRainProbability_def Let_def q_def[symmetric] b_def[symmetric])
  have k: "min 100 \<lfloor>a3 + 1 / 2\<rfloor> = rain_formula a3"
    using s3(2) by (simp add: rain_formula_nonneg)
  have "of_int 0 \<le> a3 + 1 / 2" using s3(2) by simp
  then have "0 \<le> \<lfloor>a3 + 1 / 2\<rfloor>" unfolding le_floor_iff .
  then have rng: "0 \<le> rain_formula a3" "rain_formula a3 \<le> 100"
    unfolding k[symmetric] by simp_all
  show ?thesis
    unfolding code k using rng close unfolding q_def b_def by blast
qed

lemma calculateRainProbability_value:
  assumes "1 \<le> hours"
    and "length (filter (\<lambda>p. p > to_double (1 / 10)) precipitation) = c"
    and "int c \<le> hours"
    and "rain_formula (of_nat c / of_int hours * 100 + humidityBonus humidity - 1 / 2 ^ 40) = k"
    and "rain_formula (of_nat c / of_int hours * 100 + humidityBonus humidity + 1 / 2 ^ 40) = k"
  shows "calculateRainProbability precipitation humidity hours = Num (of_int k)"
proof -
  obtain x where x: "calculateRainProbability precipitation humidity hours
      = Num (of_int (rain_formula x))"
    "\<bar>x - (of_nat c / of_int hours * 100 + humidityBonus humidity)\<bar> \<le> 1 / 2 ^ 40"
    using calculateRainProbability_close[of hours precipitation humidity] assms(1,3)
    unfolding assms(2) by blast
  have "of_nat c / of_int hours * 100 + humidityBonus humidity - 1 / 2 ^ 40 \<le> x"
    "x \<le> of_nat c / of_int hours * 100 + humidityBonus humidity + 1 / 2 ^ 40"
    using x(2) unfolding abs_le_iff by linarith+
  then have "k \<le> rain_formula x" "rain_formula x \<le> k"
    using rain_formula_mono assms(4,5) by metis+
  then show ?thesis using x(1) by simp
qed

lemma bonus_85: "humidityBonus (Some [85, 85]) = 10"
  by (simp add: humidityBonus_def mean_def number_of_numeral)




text \<open>
  The humidities 70.2, 79.9 and 89.9, as doubles: the sum of the program is the double
  above 240 and its mean the double above 80, so the bonus is 10.
\<close>

lemma humidity_doubles:
  "to_double (702 / 10) = 4939885841272013 / 70368744177664"
  "to_double (799 / 10) = 2811231329897677 / 35184372088832"
  "to_double (899 / 10) = 3163075050785997 / 35184372088832"
  using to_double_below[of 46 "702 / 10"] to_double_below[of 46 "799 / 10"]
    to_double_below[of 46 "899 / 10"]
  by (simp_all add: rne_def Let_def floor_rat)

lemma humidity_sum:
  "foldl num_add (Num 0) [4939885841272013 / 70368744177664,
      2811231329897677 / 35184372088832, 3163075050785997 / 35184372088832]
   = Num (8444249301319681 / 35184372088832)"
proof -
  have a: "number_of (0 + 4939885841272013 / 70368744177664)
      = Num (4939885841272013 / 70368744177664)"
    using number_of_dyadic[of 46 "4939885841272013 / 70368744177664" 4939885841272013]
    by simp
  have b: "number_of (4939885841272013 / 70368744177664 + 2811231329897677 / 35184372088832)
      = Num (1320293562633421 / 8796093022208)"
  proof (rule number_of_eval)
    show "to_double (4939885841272013 / 70368744177664 + 2811231329897677 / 35184372088832)
        = 1320293562633421 / 8796093022208"
      using to_double_below[of 45
          "4939885841272013 / 70368744177664 + 2811231329897677 / 35184372088832"]
      by (simp add: rne_def Let_def floor_rat)
  qed simp_all
  have c: "number_of (1320293562633421 / 8796093022208 + 3163075050785997 / 35184372088832)
      = Num (8444249301319681 / 35184372088832)"
  proof (rule number_of_eval)
    show "to_double (1320293562633421 / 8796093022208 + 3163075050785997 / 35184372088832)
        = 8444249301319681 / 35184372088832"
      using to_double_below[of 45
          "1320293562633421 / 8796093022208 + 3163075050785997 / 35184372088832"]
      by (simp add: rne_def Let_def floor_rat)
  qed simp_all
  show ?thesis
    by (simp only: foldl.simps num_add.simps a b c)
qed

lemma humidity_mean:
  "mean [4939885841272013 / 70368744177664, 2811231329897677 / 35184372088832,
      3163075050785997 / 35184372088832]
   = Num (5629499534213121 / 70368744177664)"
proof -
  have "number_of (8444249301319681 / 35184372088832 / 3)
      = Num (5629499534213121 / 70368744177664)"
  proof (rule number_of_eval)
    show "to_double (8444249301319681 / 35184372088832 / 3)
        = 5629499534213121 / 70368744177664"
      using to_double_below[of 46 "8444249301319681 / 35184372088832 / 3"]
      by (simp add: rne_def Let_def floor_rat)
  qed simp_all
  then show ?thesis
    unfolding mean_def humidity_sum by simp
qed

lemma humidityBonus_rounded_mean:
  "humidityBonus (Some [4939885841272013 / 70368744177664, 2811231329897677 / 35184372088832,
      3163075050785997 / 35184372088832]) = 10"
  by (simp add: humidityBonus_def humidity_mean)




section \<open>The temperature status\<close>

lemma fold_max_Max: "fold max xs (x::rat) = Max (set (x # xs))"
  by (rule Max.set_eq_fold[symmetric])

lemma fold_min_Min: "fold min xs (x::rat) = Min (set (x # xs))"
  by (rule Min.set_eq_fold[symmetric])

lemma Math_max_Max: "xs \<noteq> [] \<Longrightarrow> Math_max xs = Num (Max (set xs))"
  by (cases xs) (simp_all only: Math_max.simps fold_max_Max, simp)

lemma Math_min_Min: "xs \<noteq> [] \<Longrightarrow> Math_min xs = Num (Min (set xs))"
  by (cases xs) (simp_all only: Math_min.simps fold_min_Min, simp)

text \<open>
  Claim C6. For a non-empty temperature sequence \<open>evaluateTemperature\<close> gives the status
  of the first rule that matches, in the order: maximum above 35, \<open>muy_alta\<close>; minimum
  below 0, \<open>muy_baja\<close>; maximum above 30, \<open>alta\<close>; minimum below 5, \<open>baja\<close>; otherwise
  \<open>normal\<close>. Each status is returned on exactly its bracket, so the five brackets
  cover every sequence and exclude each other; the status of \<open>[36, 20, -1]\<close> is
  \<open>muy_alta\<close>.
\<close>

theorem evaluateTemperature_status:
  assumes "temperatures \<noteq> []"
  shows "(t_status (evaluateTemperature temperatures) = muy_alta
            \<longleftrightarrow> Max (set temperatures) > 35)
       \<and> (t_status (evaluateTemperature temperatures) = muy_baja
            \<longleftrightarrow> Max (set temperatures) \<le> 35 \<and> Min (set temperatures) < 0)
       \<and> (t_status (evaluateTemperature temperatures) = alta
            \<longleftrightarrow> Max (set temperatures) \<le> 35 \<and> 0 \<le> Min (set temperatures)
                \<and> Max (set temperatures) > 30)
       \<and> (t_status (evaluateTemperature temperatures) = baja
            \<longleftrightarrow> Max (set temperatures) \<le> 30 \<and> 0 \<le> Min (set temperatures)
                \<and> Min (set temperatures) < 5)
       \<and> (t_status (evaluateTemperature temperatures) = normal
            \<longleftrightarrow> Max (set temperatures) \<le> 30 \<and> 5 \<le> Min (set temperatures))
       \<and> t_status (evaluateTemperature [36, 20, - 1]) = muy_alta"
proof -
  have st: "t_status (evaluateTemperature temperatures) =
      (if Max (set temperatures) > 35 then muy_alta
       else if Min (set temperatures) < 0 then muy_baja
       else if Max (set temperatures) > 30 then alta
       else if Min (set temperatures) < 5 then baja
       else normal)"
    unfolding evaluateTemperature_def Let_def Math_max_Max[OF assms] Math_min_Min[OF assms]
    by simp
  have ex: "t_status (evaluateTemperature [36, 20, - 1]) = muy_alta"
    by (simp add: evaluateTemperature_def Let_def)
  show ?thesis
    unfolding st using ex by auto
qed

theorem evaluateTemperature_status_witness:
  "[3, 12 :: rat] \<noteq> [] \<and> t_status (evaluateTemperature [3, 12]) = baja
   \<and> Max (set [3, 12 :: rat]) \<le> 30 \<and> 0 \<le> Min (set [3, 12 :: rat]) \<and> Min (set [3, 12 :: rat]) < 5"
  using evaluateTemperature_status[of "[3, 12]"] by simp

section \<open>The rounding of the statistics\<close>

lemma round1_finite:
  assumes "\<bar>s\<bar> \<le> of_int B" and "10 * B \<le> 2 ^ 53"
  shows "rounds_to s (round1 (Num s))"
proof -
  define p where "p = to_double (s * 10)"
  define k where "k = \<lfloor>p + 1 / 2\<rfloor>"
  have B0: "0 \<le> B" using assms(1) by (metis abs_ge_zero of_int_0_le_iff order_trans)
  have s10: "\<bar>s * 10\<bar> \<le> of_int (10 * B)" using assms(1) by (simp add: abs_mult)
  have np: "number_of (s * 10) = Num p"
    unfolding p_def using s10 assms(2) by (rule number_of_small)
  have pb: "\<bar>p\<bar> \<le> of_int (10 * B)"
    unfolding p_def using s10 assms(2) by (rule to_double_abs_le)
  have kf: "of_int k \<le> p + 1 / 2" "p + 1 / 2 < of_int k + 1"
    using floor_correct[of "p + 1 / 2"] unfolding k_def by simp_all
  have "of_int k < (of_int (10 * B + 1) :: rat)" using kf(1) pb by (simp add: abs_le_iff)
  then have k1: "k \<le> 10 * B" unfolding of_int_less_iff by simp
  have "(of_int (- (10 * B) - 1) :: rat) < of_int k" using kf(2) pb by (simp add: abs_le_iff)
  then have k2: "- (10 * B) \<le> k" unfolding of_int_less_iff by simp
  have "\<bar>of_int k\<bar> \<le> (of_int (10 * B) :: rat)" using k1 k2 by (simp add: abs_le_iff)
  then have "\<bar>of_int k / 10\<bar> \<le> (of_int B :: rat)" by simp
  moreover have "B \<le> 2 ^ 53" using assms(2) B0 by simp
  ultimately have nk: "number_of (of_int k / 10) = Num (to_double (of_int k / 10))"
    by (rule number_of_small)
  have r1: "round1 (Num s) = Num (to_double (of_int k / 10))"
    by (simp add: round1_def np k_def[symmetric] nk)
  have pe: "\<bar>p - s * 10\<bar> \<le> \<bar>s * 10\<bar> / 2 ^ 53 + 1 / 2 ^ 1075"
    unfolding p_def by (rule to_double_error)
  have "\<bar>of_int k - s * 10\<bar> \<le> 1 / 2 + \<bar>s * 10\<bar> / 2 ^ 53 + 1 / 2 ^ 1075"
    using kf pe by (simp add: abs_le_iff)
  then have "\<bar>of_int k - s * 10\<bar> / 10 \<le> (1 / 2 + \<bar>s * 10\<bar> / 2 ^ 53 + 1 / 2 ^ 1075) / 10"
    by (intro divide_right_mono) simp_all
  moreover have "\<bar>of_int k - s * 10\<bar> / 10 = \<bar>of_int k / 10 - s\<bar>"
  proof -
    have "of_int k / 10 - s = (of_int k - s * 10) / 10" by (simp add: diff_divide_distrib)
    then show ?thesis by (simp only: abs_divide abs_numeral)
  qed
  moreover have "(1 / 2 + \<bar>s * 10\<bar> / 2 ^ 53 + 1 / 2 ^ 1075) / 10
      \<le> 1 / 20 + \<bar>s\<bar> / 2 ^ 53 + 1 / 2 ^ 1075"
    by (simp add: abs_mult add_divide_distrib)
  ultimately have err: "\<bar>of_int k / 10 - s\<bar> \<le> 1 / 20 + \<bar>s\<bar> / 2 ^ 53 + 1 / 2 ^ 1075"
    by linarith
  have ex: "nearest_tenth_ties_up s (of_int k / 10)
      \<and> (of_int k / 10 = round_half_away1 s \<longleftrightarrow> \<not> negative_tie s)"
    if "to_double (s * 10) = s * 10"
  proof -
    have "k = \<lfloor>s * 10 + 1 / 2\<rfloor>" unfolding k_def p_def that ..
    then show ?thesis using tenth_nearest[of s] tenth_half_away_iff[of s] by simp
  qed
  have "of_int k - 1 / 2 \<le> to_double (s * 10)" "to_double (s * 10) < of_int k + 1 / 2"
    using kf unfolding p_def by simp_all
  then show ?thesis
    unfolding rounds_to_def r1 using err ex by blast
qed

lemma foldl_num_add:
  assumes "\<forall>x \<in> set xs. \<bar>x\<bar> \<le> of_int B" and "0 \<le> B" and "0 \<le> m"
    and "(m + int (length xs)) * B \<le> 2 ^ 53" and "\<bar>s0\<bar> \<le> of_int (m * B)"
  shows "\<exists>s. foldl num_add (Num s0) xs = Num s
           \<and> \<bar>s\<bar> \<le> of_int ((m + int (length xs)) * B)
           \<and> \<bar>s - (s0 + sum_list xs)\<bar>
               \<le> of_nat (length xs)
                   * (of_int ((m + int (length xs)) * B) / 2 ^ 53 + 1 / 2 ^ 1075)"
  using assms
proof (induction xs arbitrary: s0 m)
  case Nil
  then show ?case by simp
next
  case (Cons x xs)
  define N where "N = (m + int (length (x # xs))) * B"
  define e :: rat where "e = of_int N / 2 ^ 53 + 1 / 2 ^ 1075"
  define s1 where "s1 = to_double (s0 + x)"
  have xb: "\<bar>x\<bar> \<le> of_int B" using Cons.prems(1) by simp
  have N': "(m + 1 + int (length xs)) * B = N" by (simp add: N_def algebra_simps)
  have mono: "(m + 1) * B \<le> N"
    unfolding N_def using Cons.prems(2) by (intro mult_right_mono) simp_all
  have sum_b: "\<bar>s0 + x\<bar> \<le> of_int ((m + 1) * B)"
  proof -
    have "\<bar>s0 + x\<bar> \<le> \<bar>s0\<bar> + \<bar>x\<bar>" by (rule abs_triangle_ineq)
    also have "\<dots> \<le> of_int (m * B) + of_int B" using Cons.prems(5) xb by linarith
    also have "\<dots> = of_int ((m + 1) * B)" by (simp add: algebra_simps)
    finally show ?thesis .
  qed
  have small: "(m + 1) * B \<le> 2 ^ 53" using mono Cons.prems(4) unfolding N_def by linarith
  have n1: "number_of (s0 + x) = Num s1"
    unfolding s1_def using sum_b small by (rule number_of_small)
  have b1: "\<bar>s1\<bar> \<le> of_int ((m + 1) * B)"
    unfolding s1_def using sum_b small by (rule to_double_abs_le)
  have "\<bar>s1 - (s0 + x)\<bar> \<le> \<bar>s0 + x\<bar> / 2 ^ 53 + 1 / 2 ^ 1075"
    unfolding s1_def by (rule to_double_error)
  moreover have "\<bar>s0 + x\<bar> / 2 ^ 53 \<le> of_int N / 2 ^ 53"
  proof (rule divide_right_mono)
    have "(of_int ((m + 1) * B) :: rat) \<le> of_int N" using mono by (simp only: of_int_le_iff)
    with sum_b show "\<bar>s0 + x\<bar> \<le> of_int N" by linarith
  qed simp
  ultimately have e1: "\<bar>s1 - (s0 + x)\<bar> \<le> e" unfolding e_def by linarith
  have "\<exists>s. foldl num_add (Num s1) xs = Num s
           \<and> \<bar>s\<bar> \<le> of_int ((m + 1 + int (length xs)) * B)
           \<and> \<bar>s - (s1 + sum_list xs)\<bar>
               \<le> of_nat (length xs)
                   * (of_int ((m + 1 + int (length xs)) * B) / 2 ^ 53 + 1 / 2 ^ 1075)"
  proof (rule Cons.IH)
    show "\<forall>x \<in> set xs. \<bar>x\<bar> \<le> of_int B" using Cons.prems(1) by simp
    show "0 \<le> B" by (rule Cons.prems(2))
    show "0 \<le> m + 1" using Cons.prems(3) by simp
    show "(m + 1 + int (length xs)) * B \<le> 2 ^ 53" using Cons.prems(4) by (simp add: algebra_simps)
    show "\<bar>s1\<bar> \<le> of_int ((m + 1) * B)" by (rule b1)
  qed
  then obtain s where s: "foldl num_add (Num s1) xs = Num s" "\<bar>s\<bar> \<le> of_int N"
    "\<bar>s - (s1 + sum_list xs)\<bar> \<le> of_nat (length xs) * e"
    unfolding N' e_def by blast
  have f: "foldl num_add (Num s0) (x # xs) = Num s"
    using n1 s(1) by simp
  have "\<bar>s - (s0 + sum_list (x # xs))\<bar> \<le> \<bar>s - (s1 + sum_list xs)\<bar> + \<bar>s1 - (s0 + x)\<bar>"
    by simp
  also have "\<dots> \<le> of_nat (length xs) * e + e" using s(3) e1 by linarith
  also have "\<dots> = of_nat (length (x # xs)) * e" by (simp add: algebra_simps)
  finally have "\<bar>s - (s0 + sum_list (x # xs))\<bar> \<le> of_nat (length (x # xs)) * e" .
  with f s(2) show ?case unfolding N_def e_def by blast
qed

lemma mean_finite:
  assumes "xs \<noteq> []" and "\<forall>x \<in> set xs. \<bar>x\<bar> \<le> of_int B" and "0 \<le> B"
    and "int (length xs) * B \<le> 2 ^ 53"
  shows "\<exists>a. mean xs = Num a \<and> \<bar>a\<bar> \<le> of_int B
           \<and> \<bar>a - sum_list xs / of_nat (length xs)\<bar>
               \<le> (of_nat (length xs) + 1) * of_int B / 2 ^ 53 + 2 / 2 ^ 1075"
proof -
  define n :: rat where "n = of_nat (length xs)"
  define e :: rat where "e = 1 / 2 ^ 1075"
  have n: "1 \<le> n" using assms(1) unfolding n_def by (cases xs) simp_all
  obtain s where s: "foldl num_add (Num 0) xs = Num s"
    "\<bar>s\<bar> \<le> of_int ((0 + int (length xs)) * B)"
    "\<bar>s - (0 + sum_list xs)\<bar>
       \<le> of_nat (length xs) * (of_int ((0 + int (length xs)) * B) / 2 ^ 53 + 1 / 2 ^ 1075)"
    using foldl_num_add[of xs B 0 0] assms by auto
  have sb: "\<bar>s\<bar> \<le> n * of_int B" using s(2) unfolding n_def by simp
  have se: "\<bar>s - sum_list xs\<bar> \<le> n * (n * of_int B / 2 ^ 53 + e)"
    using s(3) unfolding n_def e_def by simp
  have q: "\<bar>s / n\<bar> \<le> of_int B"
  proof -
    have "\<bar>s / n\<bar> = \<bar>s\<bar> / n" using n by simp
    also have "\<dots> \<le> (n * of_int B) / n" using sb n by (intro divide_right_mono) simp_all
    also have "\<dots> = of_int B" using n by simp
    finally show ?thesis .
  qed
  have B53: "B \<le> 2 ^ 53"
  proof -
    have "1 * B \<le> int (length xs) * B"
      using assms(1,3) by (intro mult_right_mono) (cases xs, simp_all)
    with assms(4) show ?thesis by simp
  qed
  define a where "a = to_double (s / n)"
  have na: "number_of (s / n) = Num a" unfolding a_def using q B53 by (rule number_of_small)
  have ab: "\<bar>a\<bar> \<le> of_int B" unfolding a_def using q B53 by (rule to_double_abs_le)
  have m: "mean xs = Num a"
    using assms(1) na s(1) by (simp add: mean_def n_def)
  have "\<bar>a - s / n\<bar> \<le> \<bar>s / n\<bar> / 2 ^ 53 + e" unfolding a_def e_def by (rule to_double_error)
  moreover have "\<bar>s / n\<bar> / 2 ^ 53 \<le> of_int B / 2 ^ 53"
    using q by (intro divide_right_mono) simp_all
  ultimately have e1: "\<bar>a - s / n\<bar> \<le> of_int B / 2 ^ 53 + e" by linarith
  have "\<bar>s / n - sum_list xs / n\<bar> = \<bar>s - sum_list xs\<bar> / n"
    using n by (simp add: diff_divide_distrib[symmetric])
  also have "\<dots> \<le> (n * (n * of_int B / 2 ^ 53 + e)) / n"
    using se n by (intro divide_right_mono) simp_all
  also have "\<dots> = n * of_int B / 2 ^ 53 + e" using n by simp
  finally have e2: "\<bar>s / n - sum_list xs / n\<bar> \<le> n * of_int B / 2 ^ 53 + e" .
  have "\<bar>a - sum_list xs / n\<bar> \<le> \<bar>a - s / n\<bar> + \<bar>s / n - sum_list xs / n\<bar>" by simp
  also have "\<dots> \<le> (of_int B / 2 ^ 53 + e) + (n * of_int B / 2 ^ 53 + e)"
    using e1 e2 by linarith
  also have "\<dots> = (n + 1) * of_int B / 2 ^ 53 + 2 / 2 ^ 1075"
    by (simp add: e_def algebra_simps add_divide_distrib)
  finally have "\<bar>a - sum_list xs / n\<bar> \<le> (n + 1) * of_int B / 2 ^ 53 + 2 / 2 ^ 1075" .
  with m ab show ?thesis unfolding n_def by blast
qed

lemma Max_Min_bounded:
  assumes "xs \<noteq> []" and "\<forall>x \<in> set xs. \<bar>x\<bar> \<le> b"
  shows "\<bar>Max (set xs)\<bar> \<le> (b :: rat)" and "\<bar>Min (set xs)\<bar> \<le> b"
proof -
  have ne: "set xs \<noteq> {}" using assms(1) by simp
  have "Max (set xs) \<in> set xs" "Min (set xs) \<in> set xs"
    using ne by (intro Max_in Min_in; simp)+
  then show "\<bar>Max (set xs)\<bar> \<le> b" and "\<bar>Min (set xs)\<bar> \<le> b"
    using assms(2) by blast+
qed

text \<open>The doubles of a sequence with the average -0.25.\<close>

lemma to_double_fifth: "to_double (1 / 5) = 3602879701896397 / 18014398509481984"
  using to_double_below[of 55 "1 / 5"] by (simp add: rne_def Let_def floor_rat)

lemma to_double_three_tenths: "to_double (3 / 10) = 5404319552844595 / 18014398509481984"
  using to_double_below[of 54 "3 / 10"] by (simp add: rne_def Let_def floor_rat)

lemma number_of_minus_half: "number_of (- (1 / 2)) = Num (- (1 / 2))"
  using number_of_dyadic[of 53 "- (1 / 2)" 4503599627370496] by simp

lemma number_of_minus_quarter: "number_of (- (1 / 4)) = Num (- (1 / 4))"
  using number_of_dyadic[of 54 "- (1 / 4)" 4503599627370496] by simp

lemma number_of_minus_five_halves: "number_of (- (5 / 2)) = Num (- (5 / 2))"
  using number_of_dyadic[of 51 "- (5 / 2)" 5629499534213120] by simp

lemma round1_minus_quarter: "round1 (Num (- (1 / 4))) = Num (to_double (- (1 / 5)))"
proof -
  have "num_mul (Num (- (1 / 4))) 10 = Num (- (5 / 2))"
    by (simp add: number_of_minus_five_halves)
  moreover have "Math_round (Num (- (5 / 2))) = Num (- 2)"
    by (simp add: floor_rat)
  moreover have "num_div (Num (- 2)) 10 = Num (to_double (- (1 / 5)))"
    using number_of_small[of "- (1 / 5)" 1] by simp
  ultimately show ?thesis by (simp only: round1_def)
qed

lemma mean_minus_quarter: "mean [- 1 / 4] = Num (- (1 / 4))"
  by (simp add: mean_def number_of_minus_quarter)

lemma mean_minus_half_0: "mean [- 1 / 2, 0] = Num (- (1 / 4))"
  by (simp add: mean_def number_of_minus_half number_of_minus_quarter)

text \<open>
  The double of 0.35 lies below 0.35, so the tenth nearest to it is 0.3; its product by 10
  is rounded to the double 3.5, which \<^verbatim>\<open>Math.round\<close> takes to 4: the program returns the
  double of 0.4.
\<close>

lemma round1_product_rounded:
  "to_double (35 / 100) = 3152519739159347 / 9007199254740992"
  "round1 (Num (3152519739159347 / 9007199254740992)) = Num (to_double (4 / 10))"
  "nearest_tenth_ties_up (3152519739159347 / 9007199254740992) (3 / 10)"
proof -
  show "to_double (35 / 100) = 3152519739159347 / 9007199254740992"
    using to_double_below[of 54 "35 / 100"] by (simp add: rne_def Let_def floor_rat)
  have "number_of (3152519739159347 / 9007199254740992 * 10) = Num (7 / 2)"
  proof (rule number_of_eval)
    show "to_double (3152519739159347 / 9007199254740992 * 10) = 7 / 2"
      using to_double_below[of 51 "3152519739159347 / 9007199254740992 * 10"]
      by (simp add: rne_def Let_def floor_rat)
  qed simp_all
  then have "num_mul (Num (3152519739159347 / 9007199254740992)) 10 = Num (7 / 2)"
    by (simp only: num_mul.simps)
  moreover have "Math_round (Num (7 / 2)) = Num 4"
    by (simp add: floor_rat)
  moreover have "num_div (Num 4) 10 = Num (to_double (4 / 10))"
    using number_of_small[of "4 / 10" 1] by simp
  ultimately show "round1 (Num (3152519739159347 / 9007199254740992))
      = Num (to_double (4 / 10))"
    by (simp only: round1_def)
  have "(3 / 10 :: rat) = of_int 3 / 10" by simp
  then show "nearest_tenth_ties_up (3152519739159347 / 9007199254740992) (3 / 10)"
    unfolding nearest_tenth_ties_up_def by (intro conjI exI[of _ 3]) simp_all
qed

text \<open>
  Claim C9, as the program has it. For a non-empty sequence of at most \<open>2 ^ 32\<close> samples of
  a magnitude of at most a million, the average of the program is a finite number \<open>a\<close>,
  the exact mean but for the rounding of the additions and of the division. The average,
  the maximum and the minimum that \<open>evaluateTemperature\<close> and \<open>evaluateWind\<close> return
  are \<open>a\<close>, the exact maximum and the exact minimum rounded by
  \<^verbatim>\<open>Math.round(s * 10) / 10\<close> in doubles: the double nearest to the tenth nearest to the
  statistic, where a tie goes up, towards positive infinity, not away from zero, and
  where the product by 10 is rounded before the tie is decided. An average of -0.25
  gives -0.2.
\<close>

theorem statistics_round_double:
  assumes "xs \<noteq> []" and "\<forall>x \<in> set xs. \<bar>x\<bar> \<le> 1000000" and "length xs \<le> 4294967296"
  shows "\<exists>a. mean xs = Num a
           \<and> \<bar>a - sum_list xs / of_nat (length xs)\<bar>
               \<le> (of_nat (length xs) + 1) * 1000000 / 2 ^ 53 + 2 / 2 ^ 1075
           \<and> rounds_to a (t_average (evaluateTemperature xs))
           \<and> rounds_to (Max (set xs)) (t_max (evaluateTemperature xs))
           \<and> rounds_to (Min (set xs)) (t_min (evaluateTemperature xs))
           \<and> rounds_to a (w_average (evaluateWind xs))
           \<and> rounds_to (Max (set xs)) (w_max (evaluateWind xs))"
proof -
  have b: "\<forall>x \<in> set xs. \<bar>x\<bar> \<le> of_int 1000000" using assms(2) by simp
  have "int (length xs) * 1000000 \<le> 4294967296 * 1000000"
    using assms(3) by (intro mult_right_mono) simp_all
  then have len: "int (length xs) * 1000000 \<le> 2 ^ 53" by simp
  obtain a where a: "mean xs = Num a" "\<bar>a\<bar> \<le> of_int 1000000"
    "\<bar>a - sum_list xs / of_nat (length xs)\<bar>
       \<le> (of_nat (length xs) + 1) * of_int 1000000 / 2 ^ 53 + 2 / 2 ^ 1075"
    using mean_finite[OF assms(1) b _ len] by auto
  have small: "10 * (1000000 :: int) \<le> 2 ^ 53" by simp
  have mx: "\<bar>Max (set xs)\<bar> \<le> of_int 1000000" and mn: "\<bar>Min (set xs)\<bar> \<le> of_int 1000000"
    using Max_Min_bounded[OF assms(1) b] by blast+
  have ra: "rounds_to a (round1 (Num a))" using a(2) small by (rule round1_finite)
  have rx: "rounds_to (Max (set xs)) (round1 (Num (Max (set xs))))"
    using mx small by (rule round1_finite)
  have rn: "rounds_to (Min (set xs)) (round1 (Num (Min (set xs))))"
    using mn small by (rule round1_finite)
  have "t_average (evaluateTemperature xs) = round1 (Num a)"
    and "t_max (evaluateTemperature xs) = round1 (Num (Max (set xs)))"
    and "t_min (evaluateTemperature xs) = round1 (Num (Min (set xs)))"
    and "w_average (evaluateWind xs) = round1 (Num a)"
    and "w_max (evaluateWind xs) = round1 (Num (Max (set xs)))"
    by (simp_all add: evaluateTemperature_def evaluateWind_def Let_def a(1)
        Math_max_Max[OF assms(1)] Math_min_Min[OF assms(1)])
  then show ?thesis using a(1,3) ra rx rn by simp
qed

theorem statistics_round_double_witness:
  "[- 1 / 2, 0 :: rat] \<noteq> [] \<and> \<bar>- 1 / 2 :: rat\<bar> \<le> 1000000 \<and> \<bar>0 :: rat\<bar> \<le> 1000000
   \<and> length [- 1 / 2, 0 :: rat] \<le> 4294967296
   \<and> mean [- 1 / 2, 0] = Num (- 1 / 4)
   \<and> rounds_to (- 1 / 4) (t_average (evaluateTemperature [- 1 / 2, 0]))
   \<and> t_average (evaluateTemperature [- 1 / 2, 0]) = Num (to_double (- 1 / 5))
   \<and> to_double (- 1 / 5) = - (3602879701896397 / 18014398509481984)
   \<and> negative_tie (- 1 / 4)
   \<and> rounds_to (Max (set [- 1 / 2, 0])) (w_max (evaluateWind [- 1 / 2, 0]))
   \<and> w_max (evaluateWind [- 1 / 2, 0]) = Num 0"
proof -
  have t: "t_average (evaluateTemperature [- 1 / 2, 0]) = Num (to_double (- (1 / 5)))"
    unfolding evaluateTemperature_def Let_def mean_minus_half_0
    by (simp add: round1_minus_quarter)
  have w: "w_max (evaluateWind [- 1 / 2, 0]) = Num 0"
    by (simp add: evaluateWind_def Let_def round1_def floor_rat)
  have d: "to_double (- (1 / 5)) = - (3602879701896397 / 18014398509481984)"
    by (simp add: to_double_minus to_double_fifth)
  have n: "negative_tie (- (1 / 4))"
    by (simp add: negative_tie_def frac_def floor_rat)
  obtain a where a: "mean [- 1 / 2, 0] = Num a"
    "rounds_to a (t_average (evaluateTemperature [- 1 / 2, 0]))"
    "rounds_to (Max (set [- 1 / 2, 0])) (w_max (evaluateWind [- 1 / 2, 0]))"
    using statistics_round_double[of "[- 1 / 2, 0]"] by auto
  have "a = - (1 / 4)" using a(1) mean_minus_half_0 by simp
  with a mean_minus_half_0 t w d n show ?thesis by simp
qed

text \<open>
  The one temperature -0.25 is the average. Its product by 10 is -2.5, a double, which
  \<^verbatim>\<open>Math.round\<close> takes to -2: the program returns the double of -0.2, where the rounding
  half away from zero gives -0.3.
\<close>

theorem average_half_away_counterexample:
  "mean [- 1 / 4] = Num (- 1 / 4)
   \<and> t_average (evaluateTemperature [- 1 / 4]) = Num (to_double (- 1 / 5))
   \<and> round_half_away1 (- 1 / 4) = - 3 / 10
   \<and> to_double (- 1 / 5) = - (3602879701896397 / 18014398509481984)
   \<and> to_double (- 3 / 10) = - (5404319552844595 / 18014398509481984)
   \<and> t_average (evaluateTemperature [- 1 / 4]) \<noteq> Num (to_double (round_half_away1 (- 1 / 4)))"
proof -
  have t: "t_average (evaluateTemperature [- 1 / 4]) = Num (to_double (- (1 / 5)))"
    unfolding evaluateTemperature_def Let_def mean_minus_quarter
    by (simp add: round1_minus_quarter)
  have r: "round_half_away1 (- (1 / 4)) = - (3 / 10)"
    by (simp add: round_half_away1_def round_half_away_def floor_rat)
  have d: "to_double (- (1 / 5)) = - (3602879701896397 / 18014398509481984)"
    "to_double (- (3 / 10)) = - (5404319552844595 / 18014398509481984)"
    by (simp_all add: to_double_minus to_double_fifth to_double_three_tenths)
  show ?thesis
    using mean_minus_quarter t r d by simp
qed

section \<open>The search for the requested instant\<close>

lemma findIndex_bounds: "- 1 \<le> findIndex p xs \<and> findIndex p xs < int (length xs)"
  by (induction xs) (auto simp: Let_def)

lemma findIndex_none: "findIndex p xs = - 1 \<longleftrightarrow> (\<forall>x \<in> set xs. \<not> p x)"
proof (induction xs)
  case Nil
  then show ?case by simp
next
  case (Cons x xs)
  have "findIndex p xs \<noteq> - 1 \<Longrightarrow> findIndex p xs + 1 \<noteq> - 1"
    using findIndex_bounds[of p xs] by linarith
  with Cons show ?case by (auto simp: Let_def)
qed

lemma findIndex_first:
  assumes "findIndex p xs \<noteq> - 1"
  shows "p (xs ! nat (findIndex p xs)) \<and> (\<forall>x \<in> set (take (nat (findIndex p xs)) xs). \<not> p x)"
  using assms
proof (induction xs)
  case Nil
  then show ?case by simp
next
  case (Cons x xs)
  show ?case
  proof (cases "p x")
    case True
    then show ?thesis by simp
  next
    case False
    with Cons.prems have r: "findIndex p xs \<noteq> - 1"
      by (auto simp: Let_def split: if_splits)
    then have ge: "0 \<le> findIndex p xs"
      using findIndex_bounds[of p xs] by linarith
    have eq: "findIndex p (x # xs) = findIndex p xs + 1"
      using False r by (simp add: Let_def)
    have n: "nat (findIndex p xs + 1) = Suc (nat (findIndex p xs))"
      using ge by (simp add: nat_add_distrib)
    show ?thesis
      unfolding eq n using Cons.IH[OF r] False by simp
  qed
qed

lemma first_closest_snoc_keep:
  assumes fc: "first_closest pre target idx"
    and far: "\<not> \<bar>t - target\<bar> < \<bar>pre ! nat idx - target\<bar>"
  shows "first_closest (pre @ [t]) target idx"
proof -
  from fc have rng: "0 \<le> idx" "idx < int (length pre)"
    and least: "\<forall>x \<in> set pre. \<bar>pre ! nat idx - target\<bar> \<le> \<bar>x - target\<bar>"
    and first: "\<forall>x \<in> set (take (nat idx) pre). \<bar>pre ! nat idx - target\<bar> < \<bar>x - target\<bar>"
    unfolding first_closest_def by blast+
  have lt: "nat idx < length pre" using rng by linarith
  have nth: "(pre @ [t]) ! nat idx = pre ! nat idx"
    using lt by (simp add: nth_append)
  have tk: "take (nat idx) (pre @ [t]) = take (nat idx) pre"
    using lt by simp
  have "\<forall>x \<in> set (pre @ [t]). \<bar>pre ! nat idx - target\<bar> \<le> \<bar>x - target\<bar>"
    using least far by auto
  then show ?thesis
    unfolding first_closest_def nth tk using rng first by simp
qed

lemma first_closest_snoc_new:
  assumes "pre = [] \<or> (first_closest pre target idx \<and> \<bar>t - target\<bar> < \<bar>pre ! nat idx - target\<bar>)"
  shows "first_closest (pre @ [t]) target (int (length pre))"
proof -
  have nth: "(pre @ [t]) ! nat (int (length pre)) = t" by simp
  have tk: "take (nat (int (length pre))) (pre @ [t]) = pre" by simp
  have less: "\<forall>x \<in> set pre. \<bar>t - target\<bar> < \<bar>x - target\<bar>"
  proof
    fix x assume x: "x \<in> set pre"
    then have "pre \<noteq> []" by auto
    with assms have fc: "first_closest pre target idx"
      and lt: "\<bar>t - target\<bar> < \<bar>pre ! nat idx - target\<bar>" by blast+
    from fc x have "\<bar>pre ! nat idx - target\<bar> \<le> \<bar>x - target\<bar>"
      unfolding first_closest_def by blast
    with lt show "\<bar>t - target\<bar> < \<bar>x - target\<bar>" by linarith
  qed
  then have "\<forall>x \<in> set (pre @ [t]). \<bar>t - target\<bar> \<le> \<bar>x - target\<bar>"
    by (simp add: less_imp_le)
  then show ?thesis
    unfolding first_closest_def nth tk using less by simp
qed

lemma closest_loop_inv:
  assumes "i = int (length pre)"
    and "(minDiff = None \<and> pre = [])
         \<or> (first_closest pre target idx \<and> minDiff = Some \<bar>pre ! nat idx - target\<bar>)"
    and "pre @ ts \<noteq> []"
  shows "first_closest (pre @ ts) target (closest_loop ts target i minDiff idx)"
  using assms
proof (induction ts arbitrary: pre i minDiff idx)
  case Nil
  then show ?case by auto
next
  case (Cons t ts)
  have len: "i + 1 = int (length (pre @ [t]))"
    using Cons.prems(1) by simp
  have ne: "(pre @ [t]) @ ts \<noteq> []" by simp
  have nth_new: "(pre @ [t]) ! nat i = t"
    using Cons.prems(1) by simp
  consider (start) "minDiff = None" "pre = []"
    | (better) "first_closest pre target idx" "minDiff = Some \<bar>pre ! nat idx - target\<bar>"
        "\<bar>t - target\<bar> < \<bar>pre ! nat idx - target\<bar>"
    | (keep) "first_closest pre target idx" "minDiff = Some \<bar>pre ! nat idx - target\<bar>"
        "\<not> \<bar>t - target\<bar> < \<bar>pre ! nat idx - target\<bar>"
    using Cons.prems(2) by blast
  then show ?case
  proof cases
    case start
    have fc: "first_closest (pre @ [t]) target i"
      unfolding Cons.prems(1) by (rule first_closest_snoc_new) (simp add: start)
    have inv: "(Some \<bar>t - target\<bar> = None \<and> pre @ [t] = [])
         \<or> (first_closest (pre @ [t]) target i
             \<and> Some \<bar>t - target\<bar> = Some \<bar>(pre @ [t]) ! nat i - target\<bar>)"
      using fc nth_new by simp
    have step: "closest_loop (t # ts) target i minDiff idx
        = closest_loop ts target (i + 1) (Some \<bar>t - target\<bar>) i"
      using start by (simp add: Let_def)
    show ?thesis
      unfolding step using Cons.IH[OF len inv ne] by simp
  next
    case better
    have fc: "first_closest (pre @ [t]) target i"
      unfolding Cons.prems(1) by (rule first_closest_snoc_new) (use better in blast)
    have inv: "(Some \<bar>t - target\<bar> = None \<and> pre @ [t] = [])
         \<or> (first_closest (pre @ [t]) target i
             \<and> Some \<bar>t - target\<bar> = Some \<bar>(pre @ [t]) ! nat i - target\<bar>)"
      using fc nth_new by simp
    have step: "closest_loop (t # ts) target i minDiff idx
        = closest_loop ts target (i + 1) (Some \<bar>t - target\<bar>) i"
      using better by (simp add: Let_def)
    show ?thesis
      unfolding step using Cons.IH[OF len inv ne] by simp
  next
    case keep
    have lt: "nat idx < length pre"
      using keep(1) unfolding first_closest_def by linarith
    have fc: "first_closest (pre @ [t]) target idx"
      using keep(1,3) by (rule first_closest_snoc_keep)
    have nth_old: "(pre @ [t]) ! nat idx = pre ! nat idx"
      using lt by (simp add: nth_append)
    have inv: "(minDiff = None \<and> pre @ [t] = [])
         \<or> (first_closest (pre @ [t]) target idx
             \<and> minDiff = Some \<bar>(pre @ [t]) ! nat idx - target\<bar>)"
      unfolding nth_old using fc keep(2) by blast
    have step: "closest_loop (t # ts) target i minDiff idx
        = closest_loop ts target (i + 1) minDiff idx"
      using keep by (simp add: Let_def)
    show ?thesis
      unfolding step using Cons.IH[OF len inv ne] by simp
  qed
qed

lemma findIndex_exact_closest:
  assumes found: "findIndex (\<lambda>t. t = target) tms \<noteq> - 1"
  shows "first_closest tms target (findIndex (\<lambda>t. t = target) tms)
       \<and> tms ! nat (findIndex (\<lambda>t. t = target) tms) = target"
proof -
  define i where "i = findIndex (\<lambda>t. t = target) tms"
  have rng: "0 \<le> i" "i < int (length tms)"
    using findIndex_bounds[of "\<lambda>t. t = target" tms] found unfolding i_def by linarith+
  have "(\<lambda>t. t = target) (tms ! nat i)
      \<and> (\<forall>x \<in> set (take (nat i) tms). \<not> (\<lambda>t. t = target) x)"
    unfolding i_def by (rule findIndex_first[OF found])
  then have hit: "tms ! nat i = target"
    and before: "\<forall>x \<in> set (take (nat i) tms). x \<noteq> target"
    by blast+
  have least: "\<forall>t \<in> set tms. \<bar>tms ! nat i - target\<bar> \<le> \<bar>t - target\<bar>"
    unfolding hit by simp
  have first: "\<forall>t \<in> set (take (nat i) tms). \<bar>tms ! nat i - target\<bar> < \<bar>t - target\<bar>"
  proof
    fix x assume "x \<in> set (take (nat i) tms)"
    then have "x \<noteq> target" using before by blast
    then show "\<bar>tms ! nat i - target\<bar> < \<bar>x - target\<bar>" unfolding hit by simp
  qed
  show ?thesis
    unfolding first_closest_def i_def[symmetric] using rng least first hit by blast
qed

text \<open>
  Claim C3. For a non-empty series the index selected for a requested instant is the first
  index of the least absolute difference to the target over the whole series; if some
  sample's instant equals the target, the sample at the selected index is at the target
  (the difference is zero).
\<close>

theorem target_idx_closest:
  assumes "tms \<noteq> []"
  shows "first_closest tms target (target_idx tms target)
       \<and> (target \<in> set tms \<longrightarrow> tms ! nat (target_idx tms target) = target)"
proof (cases "findIndex (\<lambda>t. t = target) tms = - 1")
  case True
  then have notin: "target \<notin> set tms"
    unfolding findIndex_none by blast
  have idx: "target_idx tms target = closest_loop tms target 0 None (- 1)"
    using True by (simp add: target_idx_def)
  have "first_closest ([] @ tms) target (closest_loop tms target 0 None (- 1))"
    by (rule closest_loop_inv) (use assms in simp_all)
  then show ?thesis unfolding idx using notin by simp
next
  case False
  then have idx: "target_idx tms target = findIndex (\<lambda>t. t = target) tms"
    by (simp add: target_idx_def)
  show ?thesis
    unfolding idx using findIndex_exact_closest[OF False] by blast
qed

theorem target_idx_closest_witness:
  "[0, 10, 20 :: int] \<noteq> [] \<and> first_closest [0, 10, 20] 15 (target_idx [0, 10, 20] 15)
   \<and> target_idx [0, 10, 20] 15 = 1 \<and> 20 \<in> set [0, 10, 20 :: int]
   \<and> [0, 10, 20] ! nat (target_idx [0, 10, 20] 20) = (20 :: int)"
  using target_idx_closest[of "[0, 10, 20]" 15] target_idx_closest[of "[0, 10, 20]" 20]
  by (simp add: target_idx_def)

section \<open>The window around the requested instant\<close>

lemma slice_inside:
  assumes "0 \<le> s" and "s \<le> e" and "e \<le> int (length xs)"
  shows "slice xs s e = take (nat (e - s)) (drop (nat s) xs)"
proof -
  have "\<not> s < 0" "\<not> e < 0" "min s (int (length xs)) = s" "min e (int (length xs)) = e"
    using assms by linarith+
  then show ?thesis by (simp only: slice_def Let_def if_False)
qed

lemma map_upto_nth:
  assumes "0 \<le> s" and "s \<le> e" and "e \<le> int (length xs)"
  shows "map (\<lambda>i. xs ! nat i) [s..e - 1] = take (nat (e - s)) (drop (nat s) xs)"
proof (rule nth_equalityI)
  show len: "length (map (\<lambda>i. xs ! nat i) [s..e - 1]) = length (take (nat (e - s)) (drop (nat s) xs))"
    using assms by simp
  fix k assume "k < length (map (\<lambda>i. xs ! nat i) [s..e - 1])"
  then have k: "int k < e - s" using assms by simp
  then have up: "[s..e - 1] ! k = s + int k" by simp
  have n: "nat (s + int k) = nat s + k" using assms(1) by (simp add: nat_add_distrib)
  have "k < nat (e - s)" using k by linarith
  moreover have "nat s + k \<le> length xs" using k assms by linarith
  ultimately have "take (nat (e - s)) (drop (nat s) xs) ! k = xs ! (nat s + k)"
    by simp
  moreover have "map (\<lambda>i. xs ! nat i) [s..e - 1] ! k = xs ! nat (s + int k)"
    using k assms up by simp
  ultimately show "map (\<lambda>i. xs ! nat i) [s..e - 1] ! k = take (nat (e - s)) (drop (nat s) xs) ! k"
    unfolding n by simp
qed

lemma context_bounds:
  assumes "0 \<le> idx" and "idx < int (length tms)"
  shows "0 \<le> context_start idx" and "context_start idx \<le> idx" and "idx < context_end tms idx"
    and "context_end tms idx \<le> int (length tms)"
    and "context_end tms idx - context_start idx \<le> 13"
  using assms unfolding context_start_def context_end_def by linarith+

lemma sd_contextHours_times:
  "map p_time (sd_contextHours (specific_date_reply targetDate thresh tms precs temps humidity
      windSpeed windDirection idx))
   = map (\<lambda>i. tms ! nat i) [context_start idx..context_end tms idx - 1]"
  by (simp add: specific_date_reply_def Let_def comp_def)

lemma ss_contextHours_times:
  "map ps_time (ss_contextHours (specific_date_server_reply targetDate thresh tms precs idx))
   = map (\<lambda>i. tms ! nat i) [context_start idx..context_end tms idx - 1]"
  by (simp add: specific_date_server_reply_def Let_def comp_def)

lemma nth_in_slice:
  assumes "0 \<le> s" and "s \<le> i" and "i < e" and "e \<le> int (length xs)"
  shows "xs ! nat i \<in> set (slice xs s e)"
proof -
  have sl: "slice xs s e = take (nat (e - s)) (drop (nat s) xs)"
    using assms by (intro slice_inside) linarith+
  define k where "k = nat i - nat s"
  have k: "k < nat (e - s)" "nat s + k = nat i" "nat s + k < length xs"
    using assms unfolding k_def by linarith+
  have "take (nat (e - s)) (drop (nat s) xs) ! k = xs ! (nat s + k)"
    using k by simp
  moreover have "k < length (take (nat (e - s)) (drop (nat s) xs))"
    using k by simp
  ultimately have "xs ! (nat s + k) \<in> set (take (nat (e - s)) (drop (nat s) xs))"
    by (metis nth_mem)
  then show ?thesis unfolding sl k(2) .
qed

lemma index_inside: "0 \<le> i \<Longrightarrow> i < int (length xs) \<Longrightarrow> index xs i = Some (xs ! nat i)"
  by (simp add: index_def)

text \<open>
  Claim C5. For a series of length \<open>L\<close> and an index \<open>idx\<close> with \<open>0 \<le> idx < L\<close>, the
  context hours of the answer are the samples of the range from \<open>max(0, idx - 6)\<close> up to,
  not including, \<open>min(L, idx + 6 + 1)\<close>. The range lies in the series, contains \<open>idx\<close>
  (so it is not empty) and has at most 13 indices; it starts at 0 for \<open>idx = 0\<close> and ends
  at \<open>L\<close> for \<open>idx = L - 1\<close>.
\<close>

theorem context_window:
  assumes "0 \<le> idx" and "idx < int (length tms)"
  shows "map p_time (sd_contextHours (specific_date_reply targetDate thresh tms precs temps
             humidity windSpeed windDirection idx))
           = take (nat (min (int (length tms)) (idx + 6 + 1) - max 0 (idx - 6)))
               (drop (nat (max 0 (idx - 6))) tms)
       \<and> map ps_time (ss_contextHours (specific_date_server_reply targetDate thresh tms precs idx))
           = take (nat (min (int (length tms)) (idx + 6 + 1) - max 0 (idx - 6)))
               (drop (nat (max 0 (idx - 6))) tms)
       \<and> 0 \<le> max 0 (idx - 6) \<and> max 0 (idx - 6) \<le> idx
       \<and> idx < min (int (length tms)) (idx + 6 + 1)
       \<and> min (int (length tms)) (idx + 6 + 1) \<le> int (length tms)
       \<and> min (int (length tms)) (idx + 6 + 1) - max 0 (idx - 6) \<le> 13
       \<and> context_start 0 = 0
       \<and> context_end tms (int (length tms) - 1) = int (length tms)"
proof -
  note b = context_bounds[OF assms]
  have le: "context_start idx \<le> context_end tms idx" using b by linarith
  have pts: "map (\<lambda>i. tms ! nat i) [context_start idx..context_end tms idx - 1]
      = take (nat (context_end tms idx - context_start idx)) (drop (nat (context_start idx)) tms)"
    using b(1) le b(4) by (rule map_upto_nth)
  have edge: "context_start 0 = 0" "context_end tms (int (length tms) - 1) = int (length tms)"
    by (simp_all add: context_start_def context_end_def)
  show ?thesis
    unfolding sd_contextHours_times ss_contextHours_times pts
    using b edge unfolding context_start_def context_end_def by simp
qed

theorem context_window_witness:
  "(0::int) \<le> 1 \<and> (1::int) < int (length [0, 10, 20 :: int])
   \<and> map p_time (sd_contextHours (specific_date_reply 10 (threshNum None) [0, 10, 20] [0, 0, 5]
        [10, 11, 12] None [1, 2, 3] None 1)) = [0, 10, 20]
   \<and> map ps_time (ss_contextHours (specific_date_server_reply 10 (threshNum None) [0, 10, 20]
        [0, 0, 5] 1)) = [0, 10, 20]"
  using context_window[of 1 "[0, 10, 20]" 10 "threshNum None" "[0, 0, 5]" "[10, 11, 12]" None
      "[1, 2, 3]" None]
  by simp

text \<open>
  Claim C1, as the program has it. For an index \<open>idx\<close> inside a series whose
  precipitation has the length of its instants, \<open>willRain\<close> of the answer for a requested
  instant is true if and only if the precipitation of the sample at \<open>idx\<close> itself
  reaches the threshold. That sample lies in the context window, so a true \<open>willRain\<close>
  implies that some sample of the window reaches the threshold; the converse fails.
\<close>

theorem willRain_target_sample:
  assumes "0 \<le> idx" and "idx < int (length tms)" and "length precs = length tms"
  shows "sd_willRain (specific_date_reply targetDate thresh tms precs temps humidity windSpeed
             windDirection idx) = ge_number (precs ! nat idx) thresh
       \<and> ss_willRain (specific_date_server_reply targetDate thresh tms precs idx)
           = ge_number (precs ! nat idx) thresh
       \<and> (ge_number (precs ! nat idx) thresh \<longrightarrow>
            list_ex (\<lambda>p. ge_number p thresh)
              (slice precs (max 0 (idx - 6)) (min (int (length tms)) (idx + 6 + 1))))"
proof -
  have ix: "index precs idx = Some (precs ! nat idx)"
    using assms by (intro index_inside) simp_all
  have a: "sd_willRain (specific_date_reply targetDate thresh tms precs temps humidity windSpeed
             windDirection idx) = ge_number (precs ! nat idx) thresh"
    by (simp add: specific_date_reply_def Let_def ix)
  have b: "ss_willRain (specific_date_server_reply targetDate thresh tms precs idx)
           = ge_number (precs ! nat idx) thresh"
    by (simp add: specific_date_server_reply_def Let_def ix)
  have "precs ! nat idx \<in> set (slice precs (max 0 (idx - 6)) (min (int (length tms)) (idx + 6 + 1)))"
    using assms by (intro nth_in_slice) linarith+
  then have c: "ge_number (precs ! nat idx) thresh \<longrightarrow>
            list_ex (\<lambda>p. ge_number p thresh)
              (slice precs (max 0 (idx - 6)) (min (int (length tms)) (idx + 6 + 1)))"
    unfolding list_ex_iff by blast
  from a b c show ?thesis by blast
qed

theorem willRain_target_sample_witness:
  "(0::int) \<le> 1 \<and> (1::int) < int (length [0, 10, 20 :: int])
   \<and> length [0, 5, 0 :: rat] = length [0, 10, 20 :: int]
   \<and> sd_willRain (specific_date_reply 10 (threshNum None) [0, 10, 20] [0, 5, 0] [10, 11, 12] None
        [1, 2, 3] None 1)
   \<and> ss_willRain (specific_date_server_reply 10 (threshNum None) [0, 10, 20] [0, 5, 0] 1)
   \<and> list_ex (\<lambda>p. ge_number p (threshNum None)) (slice [0, 5, 0] (max 0 (1 - 6)) (min 3 (1 + 6 + 1)))"
  using willRain_target_sample[of 1 "[0, 10, 20]" "[0, 5, 0]" 10 "threshNum None" "[10, 11, 12]" None
      "[1, 2, 3]" None]
  by (simp add: threshNum_default)

text \<open>
  The requested instant is that of the first of two samples; the second sample, inside the
  context window, has 5 mm and the first has none: \<open>willRain\<close> is false although a
  sample of the window reaches the threshold of 0.1 mm.
\<close>

theorem willRain_window_counterexample:
  "target_idx [0, 3600000] 0 = 0
   \<and> \<not> sd_willRain (specific_date_reply 0 (threshNum None) [0, 3600000] [0, 5] [10, 11] None
          [1, 2] None (target_idx [0, 3600000] 0))
   \<and> \<not> ss_willRain (specific_date_server_reply 0 (threshNum None) [0, 3600000] [0, 5]
          (target_idx [0, 3600000] 0))
   \<and> list_ex (\<lambda>p. ge_number p (threshNum None))
        (slice [0, 5] (max 0 (0 - 6)) (min (int (length [0, 3600000 :: int])) (0 + 6 + 1)))"
  by (simp add: target_idx_def specific_date_reply_def specific_date_server_reply_def index_def
      slice_def Let_def threshNum_default)

section \<open>The window of the next hours\<close>

lemma startIdx_bounds:
  assumes "tms \<noteq> []"
  shows "0 \<le> startIdx tms now \<and> startIdx tms now < int (length tms)"
proof -
  have "- 1 \<le> findIndex (\<lambda>t. now \<le> t) tms \<and> findIndex (\<lambda>t. now \<le> t) tms < int (length tms)"
    by (rule findIndex_bounds)
  moreover have "0 < int (length tms)" using assms by simp
  ultimately show ?thesis
    unfolding startIdx_def Let_def by (simp split: if_splits)
qed



lemma slice_forward:
  assumes "0 \<le> s" and "s \<le> int (length xs)" and "0 \<le> h"
  shows "slice xs s (s + h) = take (nat (min (int (length xs)) (s + h) - s)) (drop (nat s) xs)"
proof -
  have "\<not> s < 0" "\<not> s + h < 0" "min s (int (length xs)) = s"
    "min (s + h) (int (length xs)) = min (int (length xs)) (s + h)"
    using assms by linarith+
  then show ?thesis by (simp only: slice_def Let_def if_False)
qed



lemma nh_hoursAnalyzed_length:
  "nh_hoursAnalyzed (next_hours_reply now hoursN thresh tms precs temps humidity windSpeed
      windDirection)
   = length (slice tms (startIdx tms now) (startIdx tms now + hoursN))"
  by (simp add: next_hours_reply_def Let_def)


lemma forward_window_length:
  assumes "tms \<noteq> []" and "1 \<le> hoursN"
  shows "slice tms (startIdx tms now) (startIdx tms now + hoursN)
           = take (nat (min (int (length tms)) (startIdx tms now + hoursN) - startIdx tms now))
               (drop (nat (startIdx tms now)) tms)"
    and "int (length (slice tms (startIdx tms now) (startIdx tms now + hoursN)))
           = min (int (length tms)) (startIdx tms now + hoursN) - startIdx tms now"
proof -
  have b: "0 \<le> startIdx tms now" "startIdx tms now < int (length tms)"
    using startIdx_bounds[OF assms(1)] by blast+
  show sl: "slice tms (startIdx tms now) (startIdx tms now + hoursN)
           = take (nat (min (int (length tms)) (startIdx tms now + hoursN) - startIdx tms now))
               (drop (nat (startIdx tms now)) tms)"
    using b assms(2) by (intro slice_forward) linarith+
  show "int (length (slice tms (startIdx tms now) (startIdx tms now + hoursN)))
           = min (int (length tms)) (startIdx tms now + hoursN) - startIdx tms now"
    unfolding sl using b assms(2) by simp
qed



section \<open>The rain probability of the next hours\<close>

lemma calculateRainProbability_antimono:
  assumes "1 \<le> h1" and "h1 \<le> h2"
  shows "\<exists>p p'. calculateRainProbability ps hum h2 = Num (of_int p)
           \<and> calculateRainProbability ps hum h1 = Num (of_int p') \<and> p \<le> p'"
proof -
  define c :: rat where "c = of_nat (length (filter (\<lambda>p. p > to_double (1 / 10)) ps))"
  define b where "b = humidityBonus hum"
  define v where "v h = num_add (num_mul (num_div (Num c) (of_int h)) 100) b" for h :: int
  have c0: "0 \<le> c" by (simp add: c_def)
  have b0: "0 \<le> b" using humidityBonus_cases[of hum] unfolding b_def by auto
  have h: "(0::rat) < of_int h1" "(of_int h1 :: rat) \<le> of_int h2" "(0::rat) < of_int h2"
    using assms by simp_all
  have q: "c / of_int h2 \<le> c / of_int h1"
    using frac_le[of c c "of_int h1" "of_int h2"] c0 h by simp
  have d: "num_div (Num c) (of_int h1) = number_of (c / of_int h1)"
    "num_div (Num c) (of_int h2) = number_of (c / of_int h2)"
    using h by simp_all
  have "number_le (number_of 0) (number_of (c / of_int h2))"
    using c0 h by (intro number_of_mono) simp
  then have "number_le (Num 0) (num_div (Num c) (of_int h2))" unfolding d by simp
  then have "number_le (Num 0) (num_mul (num_div (Num c) (of_int h2)) 100)"
    by (rule nonneg_num_mul) simp
  then have n0: "number_le (Num 0) (v h2)" unfolding v_def using b0 by (rule nonneg_num_add)
  have "number_le (num_div (Num c) (of_int h2)) (num_div (Num c) (of_int h1))"
    unfolding d using q by (rule number_of_mono)
  then have "number_le (num_mul (num_div (Num c) (of_int h2)) 100)
      (num_mul (num_div (Num c) (of_int h1)) 100)"
    by (rule num_mul_mono) simp
  then have le: "number_le (v h2) (v h1)" unfolding v_def by (rule num_add_mono)
  have code: "calculateRainProbability ps hum h = Math_min_100 (Math_round (v h))" for h
    by (simp add: calculateRainProbability_def Let_def v_def c_def b_def)
  show ?thesis
    unfolding code using Math_min_100_round[OF n0 le] by blast
qed

lemma nh_rainProbability_eq:
  "nh_rainProbability (next_hours_reply now hoursN thresh tms precs temps humidity windSpeed
      windDirection)
   = calculateRainProbability
       (slice precs (startIdx tms now) (startIdx tms now + hoursN))
       (map_option (\<lambda>h. slice h (startIdx tms now) (startIdx tms now + hoursN)) humidity)
       hoursN"
  by (simp add: next_hours_reply_def Let_def)

text \<open>
  Claim C10, as the program has it. Without a requested instant the rain probability of
  the answer is \<open>calculateRainProbability\<close> of the sliced samples with the clamped
  requested hours as its \<open>hours\<close>, not the number of the samples analysed. When fewer
  samples than the requested hours remain from the start index to the end of the series,
  that denominator exceeds \<open>hoursAnalyzed\<close>, and the probability is at most the value of
  the same formula with \<open>hoursAnalyzed\<close> as the denominator; the two are equal, for one,
  when no sample of the window is above 0.1 mm.
\<close>

theorem next_hours_probability_denominator:
  assumes "tms \<noteq> []" and "1 \<le> hoursN"
    and "int (length tms) - startIdx tms now < hoursN"
  shows "(let r = next_hours_reply now hoursN thresh tms precs temps humidity windSpeed
                    windDirection;
              slicePrecs = slice precs (startIdx tms now) (startIdx tms now + hoursN);
              sliceHumidity =
                map_option (\<lambda>h. slice h (startIdx tms now) (startIdx tms now + hoursN)) humidity
          in nh_rainProbability r = calculateRainProbability slicePrecs sliceHumidity hoursN
             \<and> int (nh_hoursAnalyzed r) = int (length tms) - startIdx tms now
             \<and> int (nh_hoursAnalyzed r) < hoursN
             \<and> (\<exists>p p'. nh_rainProbability r = Num (of_int p)
                  \<and> calculateRainProbability slicePrecs sliceHumidity (int (nh_hoursAnalyzed r))
                      = Num (of_int p')
                  \<and> p \<le> p'))"
proof -
  have b: "0 \<le> startIdx tms now" "startIdx tms now < int (length tms)"
    using startIdx_bounds[OF assms(1)] by blast+
  have "int (length (slice tms (startIdx tms now) (startIdx tms now + hoursN)))
      = min (int (length tms)) (startIdx tms now + hoursN) - startIdx tms now"
    by (rule forward_window_length(2)[OF assms(1,2)])
  also have "\<dots> = int (length tms) - startIdx tms now"
    using assms(3) by linarith
  finally have n: "int (nh_hoursAnalyzed (next_hours_reply now hoursN thresh tms precs temps
      humidity windSpeed windDirection)) = int (length tms) - startIdx tms now"
    unfolding nh_hoursAnalyzed_length .
  have one: "1 \<le> int (length tms) - startIdx tms now" using b by linarith
  have le: "int (length tms) - startIdx tms now \<le> hoursN" using assms(3) by linarith
  show ?thesis
    unfolding Let_def n nh_rainProbability_eq
    using calculateRainProbability_antimono[OF one le] assms(3) by blast
qed

theorem next_hours_probability_denominator_witness:
  "[0, 3600000, 7200000 :: int] \<noteq> [] \<and> (1::int) \<le> 12
   \<and> int (length [0, 3600000, 7200000 :: int]) - startIdx [0, 3600000, 7200000] 1800000 < 12
   \<and> nh_rainProbability (next_hours_reply 1800000 12 (threshNum None) [0, 3600000, 7200000]
        [0, 0, 5] [10, 11, 12] None [1, 2, 3] None) = Num 8
   \<and> nh_hoursAnalyzed (next_hours_reply 1800000 12 (threshNum None) [0, 3600000, 7200000]
        [0, 0, 5] [10, 11, 12] None [1, 2, 3] None) = 2
   \<and> calculateRainProbability (slice [0, 0, 5] 1 13) None 2 = Num 50"
proof -
  have s: "startIdx [0, 3600000, 7200000] 1800000 = 1"
    by (simp add: startIdx_def)
  have sl: "slice [0, 0, 5 :: rat] 1 13 = [0, 5]"
    "slice [0, 3600000, 7200000 :: int] 1 13 = [3600000, 7200000]"
    by (simp_all add: slice_def)
  have b: "humidityBonus None = 0"
    by (simp add: humidityBonus_def)
  have p12: "calculateRainProbability [0, 5] None 12 = Num (of_int 8)"
    by (rule calculateRainProbability_value[where c = 1])
      (simp_all add: to_double_tenth b rain_formula_def round_half_away_def floor_rat)
  have p2: "calculateRainProbability [0, 5] None 2 = Num (of_int 50)"
    by (rule calculateRainProbability_value[where c = 1])
      (simp_all add: to_double_tenth b rain_formula_def round_half_away_def floor_rat)
  show ?thesis
    using next_hours_probability_denominator[of "[0, 3600000, 7200000]" 12 1800000
        "threshNum None" "[0, 0, 5]" "[10, 11, 12]" None "[1, 2, 3]" None] p12 p2
    by (simp add: nh_rainProbability_eq nh_hoursAnalyzed_length s sl)
qed

text \<open>
  Two samples remain of twelve requested hours, none of them with rain, the humidity mean
  is 85: the probability is 10 with either denominator.
\<close>

theorem next_hours_probability_equal_counterexample:
  "int (length [0, 3600000, 7200000 :: int]) - startIdx [0, 3600000, 7200000] 1800000 < 12
   \<and> nh_hoursAnalyzed (next_hours_reply 1800000 12 (threshNum None) [0, 3600000, 7200000]
        [0, 0, 0] [10, 11, 12] (Some [85, 85, 85]) [1, 2, 3] None) = 2
   \<and> nh_rainProbability (next_hours_reply 1800000 12 (threshNum None) [0, 3600000, 7200000]
        [0, 0, 0] [10, 11, 12] (Some [85, 85, 85]) [1, 2, 3] None) = Num 10
   \<and> calculateRainProbability (slice [0, 0, 0] 1 13) (Some (slice [85, 85, 85] 1 13)) 2 = Num 10"
proof -
  have s: "startIdx [0, 3600000, 7200000] 1800000 = 1"
    by (simp add: startIdx_def)
  have sl: "slice [0, 0, 0 :: rat] 1 13 = [0, 0]" "slice [85, 85, 85 :: rat] 1 13 = [85, 85]"
    "slice [0, 3600000, 7200000 :: int] 1 13 = [3600000, 7200000]"
    by (simp_all add: slice_def)
  have p12: "calculateRainProbability [0, 0] (Some [85, 85]) 12 = Num (of_int 10)"
    by (rule calculateRainProbability_value[where c = 0])
      (simp_all add: to_double_tenth bonus_85 rain_formula_def round_half_away_def floor_rat)
  have p2: "calculateRainProbability [0, 0] (Some [85, 85]) 2 = Num (of_int 10)"
    by (rule calculateRainProbability_value[where c = 0])
      (simp_all add: to_double_tenth bonus_85 rain_formula_def round_half_away_def floor_rat)
  show ?thesis
    using p12 p2 by (simp add: nh_rainProbability_eq nh_hoursAnalyzed_length s sl)
qed

section \<open>The parameters of a request\<close>

lemma hoursNum_range: "1 \<le> hoursNum h \<and> hoursNum h \<le> 168"
  by (simp add: hoursNum_def Let_def)

lemma hoursNum_parse:
  "hoursNum h =
     (case parseInt (case h of None \<Rightarrow> ''12'' | Some s \<Rightarrow> s) of
        None \<Rightarrow> 12
      | Some n \<Rightarrow> if n = 0 then 12 else max 1 (min 168 n))"
  by (simp add: hoursNum_def Let_def split: option.split)

lemma threshNum_parse:
  "threshNum th =
     (case parseFloat (case th of None \<Rightarrow> ''0.1'' | Some s \<Rightarrow> s) of
        NaN \<Rightarrow> Num (to_double (1 / 10))
      | Num x \<Rightarrow> if x = 0 then Num (to_double (1 / 10)) else Num x
      | NegInfinity \<Rightarrow> NegInfinity
      | PosInfinity \<Rightarrow> PosInfinity)"
  by (simp add: threshNum_def)

text \<open>
  Claim C7 at the values \<^verbatim>\<open>hours=0\<close> and \<^verbatim>\<open>threshold=0\<close>. Both strings are
  numeric: their parses are 0. The effective hours are 12, not the parse clamped to 1, and
  the effective threshold is 0.1 (the double nearest to it), not the parse 0: \<^verbatim>\<open>||\<close>
  replaces a parse of zero by the default as it does \<^verbatim>\<open>NaN\<close>. A negative parse such
  as -3 does reach the clamp and gives 1.
\<close>

theorem zero_hours_threshold_default:
  "parseInt ''0'' = Some 0 \<and> hoursNum (Some ''0'') = 12
   \<and> parseFloat ''0'' = Num 0 \<and> threshNum (Some ''0'') = Num (to_double (1 / 10))
   \<and> parseInt ''-3'' = Some (- 3) \<and> hoursNum (Some ''-3'') = 1"
  by (simp add: hoursNum_def threshNum_def parseInt_def parseFloat_def isWhiteSpace_def
      isDigit_def digits_value_def scale10_def exponent_part_def)

section \<open>The answers of the handlers\<close>

lemma willitrain_next_hours:
  assumes "truthy (q_lat q)" and "truthy (q_lon q)" and "\<not> truthy (q_date q)"
    and "\<And>ps. rt_fetch rt ps = Reply st (Some h)" and "200 \<le> st" and "st \<le> 299"
    and "h_time h = Some tms" and "h_precipitation h = Some precs"
    and "h_temperature_2m h = Some temps" and "h_wind_speed_10m h = Some windSpeed"
  shows "fst (willitrain rt q) =
           \<lparr>status = 200,
            body = NextHours
              (next_hours_reply (rt_now rt) (hoursNum (q_hours q)) (threshNum (q_threshold q)) tms
                 precs temps (h_relative_humidity_2m h) windSpeed (h_wind_direction_10m h))\<rparr>"
    and "fst (willitrain_server rt q) =
           \<lparr>status = 200,
            body = NextHoursServer
              (next_hours_server_reply (rt_now rt) (hoursNum (q_hours q))
                 (threshNum (q_threshold q)) tms precs)\<rparr>"
  using assms by (simp_all add: willitrain_def willitrain_server_def Let_def)

lemma willitrain_specific_date:
  assumes "truthy (q_lat q)" and "truthy (q_lon q)" and "q_date q = Some s" and "s \<noteq> []"
    and "rt_Date rt s = Some t"
    and "\<And>ps. rt_fetch rt ps = Reply st (Some h)" and "200 \<le> st" and "st \<le> 299"
    and "h_time h = Some tms" and "h_precipitation h = Some precs"
    and "h_temperature_2m h = Some temps" and "h_wind_speed_10m h = Some windSpeed"
  shows "fst (willitrain rt q) =
           \<lparr>status = 200,
            body = SpecificDate
              (specific_date_reply t (threshNum (q_threshold q)) tms precs temps
                 (h_relative_humidity_2m h) windSpeed (h_wind_direction_10m h)
                 (target_idx tms t))\<rparr>"
    and "fst (willitrain_server rt q) =
           \<lparr>status = 200,
            body = SpecificDateServer
              (specific_date_server_reply t (threshNum (q_threshold q)) tms precs
                 (target_idx tms t))\<rparr>"
  using assms by (simp_all add: willitrain_def willitrain_server_def Let_def truthy_def param_def)

lemma willitrain_400:
  assumes "q_date q = Some s" and "s \<noteq> []" and "rt_Date rt s = None"
  shows "willitrain rt q = (\<lparr>status = 400, body = Error ''lat and lon are required''\<rparr>, [])
       \<or> willitrain rt q = (\<lparr>status = 400, body = Error ''invalid date''\<rparr>, [])"
  using assms by (simp add: willitrain_def Let_def truthy_def param_def)

lemma willitrain_server_400:
  assumes "q_date q = Some s" and "s \<noteq> []" and "rt_Date rt s = None"
  shows "willitrain_server rt q = (\<lparr>status = 400, body = Error ''lat and lon are required''\<rparr>, [])
       \<or> willitrain_server rt q = (\<lparr>status = 400, body = Error ''invalid date''\<rparr>, [])"
  using assms by (simp add: willitrain_server_def Let_def truthy_def param_def)

text \<open>
  Claim C8, as the program has it. For a request whose \<^verbatim>\<open>date\<close> value is not empty and
  does not parse as an instant, each handler answers with the status 400 and an error
  payload and sends no request to the provider. (An empty \<^verbatim>\<open>date\<close> value is taken as
  no date.)
\<close>

theorem invalid_date_bad_request:
  assumes "q_date q = Some s" and "s \<noteq> []" and "rt_Date rt s = None"
  shows "status (fst (willitrain rt q)) = 400
       \<and> (\<exists>e. body (fst (willitrain rt q)) = Error e)
       \<and> snd (willitrain rt q) = []
       \<and> status (fst (willitrain_server rt q)) = 400
       \<and> (\<exists>e. body (fst (willitrain_server rt q)) = Error e)
       \<and> snd (willitrain_server rt q) = []"
  using willitrain_400[OF assms] willitrain_server_400[OF assms] by auto

theorem invalid_date_bad_request_witness:
  "q_date bad_date_query = Some ''tomorrow'' \<and> ''tomorrow'' \<noteq> []
   \<and> rt_Date example_runtime ''tomorrow'' = None
   \<and> willitrain example_runtime bad_date_query
       = (\<lparr>status = 400, body = Error ''invalid date''\<rparr>, [])
   \<and> willitrain_server example_runtime bad_date_query
       = (\<lparr>status = 400, body = Error ''invalid date''\<rparr>, [])"
  using invalid_date_bad_request[of bad_date_query "''tomorrow''" example_runtime]
  by (simp add: bad_date_query_def example_query_def example_runtime_def willitrain_def
      willitrain_server_def truthy_def param_def Let_def)

text \<open>
  The request \<^verbatim>\<open>?lat=-31.4&lon=-64.2&date=\<close>: the empty string does not parse as an
  instant, the handlers take the request as one for the next hours, send one request to the
  provider and answer with the status 200.
\<close>

theorem empty_date_counterexample:
  "q_date empty_date_query = Some [] \<and> rt_Date example_runtime [] = None
   \<and> status (fst (willitrain example_runtime empty_date_query)) = 200
   \<and> length (snd (willitrain example_runtime empty_date_query)) = 1
   \<and> status (fst (willitrain_server example_runtime empty_date_query)) = 200
   \<and> length (snd (willitrain_server example_runtime empty_date_query)) = 1"
  by (simp add: empty_date_query_def example_query_def example_runtime_def example_hourly_def
      willitrain_def willitrain_server_def truthy_def param_def Let_def)

end
